theory Spec2Isabelle
  imports Main "HOL-Library.Word" "HOL-Library.Sublist"
begin

section \<open>The emitted IR\<close>

text \<open>
  The translator of \<^verbatim>\<open>lib/DC/DCFunction.cpp\<close> builds LLVM IR through an IR builder.
  The IR is modelled by what the translator can observe of it: types, values,
  instructions, and basic blocks holding an instruction list. A basic block pointer is
  the index of the block in the function's block list (\<^verbatim>\<open>BasicBlock::Create\<close> with a
  parent function appends to that list); the value of an instruction is the number the
  instruction got when it was created, with its type.
\<close>

datatype ty =
    VoidTy
  | IntegerTy nat
  | FPTy nat
  | PointerTy ty
  | VectorTy nat ty
  | RegSetTy
  | FuncTy

datatype intrinsic = Intrinsic_trap | Intrinsic_sqrt | Intrinsic_bswap | Intrinsic_dc_translate_at

datatype val =
    ConstantInt ty "64 word"
  | ConstIntToPtr val ty
  | Inst nat ty
  | Function "64 word"
  | IntrinsicDecl intrinsic "ty list"
  | RegSetDiffFunction
  | RegSetArg

datatype binaryops =
    Add | FAdd | Sub | FSub | Mul | FMul | UDiv | SDiv | FDiv
  | URem | SRem | FRem | Shl | LShr | AShr | And | Or | Xor

datatype castops =
    Trunc | ZExt | SExt | FPToUI | FPToSI | UIToFP | SIToFP
  | FPTrunc | FPExt | PtrToInt | IntToPtr | BitCast

datatype instr =
    CallInst nat val "val list"
  | UnreachableInst
  | BranchInst nat
  | ReturnInst
  | BinaryOperator nat binaryops val val
  | CastInst nat castops val ty
  | AllocaInst nat ty
  | LoadInst nat val nat
  | StoreInst val val nat bool
  | InsertElementInst nat val val val
  | ExtractElementInst nat val val
  | FenceInst "64 word" "64 word"
  | GetReg nat nat
  | SetReg nat val
  | GetRegAsInt nat nat
  | InsertBitsInValue nat val val
  | SaveAllLocalRegs
  | RestoreLocalRegs

record basicblock =
  bbname :: string
  body :: "instr list"

fun isShift :: "binaryops \<Rightarrow> bool" where
  "isShift Shl = True"
| "isShift LShr = True"
| "isShift AShr = True"
| "isShift _ = False"

fun isIntegerTy :: "ty \<Rightarrow> bool" where
  "isIntegerTy (IntegerTy n) = True"
| "isIntegerTy _ = False"

fun isPointerTy :: "ty \<Rightarrow> bool" where
  "isPointerTy (PointerTy t) = True"
| "isPointerTy _ = False"

fun getPrimitiveSizeInBits :: "ty \<Rightarrow> nat" where
  "getPrimitiveSizeInBits (IntegerTy n) = n"
| "getPrimitiveSizeInBits (FPTy n) = n"
| "getPrimitiveSizeInBits (VectorTy k t) = k * getPrimitiveSizeInBits t"
| "getPrimitiveSizeInBits _ = 0"

fun getType :: "val \<Rightarrow> ty" where
  "getType (ConstantInt t v) = t"
| "getType (ConstIntToPtr v t) = t"
| "getType (Inst i t) = t"
| "getType (Function a) = PointerTy FuncTy"
| "getType (IntrinsicDecl i ts) = PointerTy FuncTy"
| "getType RegSetDiffFunction = PointerTy FuncTy"
| "getType RegSetArg = PointerTy RegSetTy"

fun getPointerElementType :: "ty \<Rightarrow> ty" where
  "getPointerElementType (PointerTy t) = t"
| "getPointerElementType t = VoidTy"

text \<open>The type a call to a callee returns: translated functions return void.\<close>

fun getReturnType :: "val \<Rightarrow> ty" where
  "getReturnType (IntrinsicDecl Intrinsic_trap ts) = VoidTy"
| "getReturnType (IntrinsicDecl Intrinsic_dc_translate_at ts) = PointerTy (IntegerTy 8)"
| "getReturnType (IntrinsicDecl i ts) = (case ts of [] \<Rightarrow> VoidTy | t # _ \<Rightarrow> t)"
| "getReturnType v = VoidTy"

section \<open>Decoded instructions, semantic opcodes, the tables\<close>

datatype mcoperand = Reg nat | Imm "64 word" | FPImm

record mcdecodedinst =
  Address :: "64 word"
  Size :: "64 word"
  InstOpcode :: nat
  InstOperands :: "mcoperand list"

record mcbasicblock =
  StartAddr :: "64 word"
  EndAddr :: "64 word"

record mcfunction =
  FnStartAddr :: "64 word"
  FnBlocks :: "mcbasicblock list"

text \<open>
  The semantic opcodes \<^verbatim>\<open>translateOpcode\<close> switches on. The numbers of the
  \<^verbatim>\<open>ISD::\<close> and \<^verbatim>\<open>DCINS::\<close> enumerators are declared in headers; the
  decoding of a tape token into an enumerator is a parameter (\<open>semaOpcode\<close> below).
  \<open>TARGET_OPCODE\<close> stands for the range from \<^verbatim>\<open>ISD::BUILTIN_OP_END\<close> up to
  \<^verbatim>\<open>DCINS::DC_OPCODE_START\<close>, \<open>OTHER_OPCODE\<close> for every token the switch has no
  case for. The eighteen binary and the ten cast cases of the switch, which differ only
  in the IR operation they pass on, are grouped under \<open>ISD_BINARY\<close> and \<open>ISD_CAST\<close>.
\<close>

datatype isd_binary =
    ISD_ADD | ISD_FADD | ISD_SUB | ISD_FSUB | ISD_MUL | ISD_FMUL
  | ISD_UDIV | ISD_SDIV | ISD_FDIV | ISD_UREM | ISD_SREM | ISD_FREM
  | ISD_SHL | ISD_SRL | ISD_SRA | ISD_AND | ISD_OR | ISD_XOR

datatype isd_cast =
    ISD_TRUNCATE | ISD_BITCAST | ISD_ZERO_EXTEND | ISD_SIGN_EXTEND
  | ISD_FP_TO_UINT | ISD_FP_TO_SINT | ISD_UINT_TO_FP | ISD_SINT_TO_FP
  | ISD_FP_ROUND | ISD_FP_EXTEND

datatype semaop =
    ISD_BINARY isd_binary
  | ISD_CAST isd_cast
  | ISD_FSQRT | ISD_ROTL | ISD_INSERT_VECTOR_ELT | ISD_EXTRACT_VECTOR_ELT
  | ISD_SMUL_LOHI | ISD_UMUL_LOHI | ISD_LOAD | ISD_STORE
  | ISD_BRIND | ISD_BR | ISD_TRAP | ISD_BSWAP | ISD_ATOMIC_FENCE
  | TARGET_OPCODE
  | END_OF_INSTRUCTION
  | PUT_RC | PUT_REG | GET_RC | GET_REG | CUSTOM_OP | COMPLEX_PATTERN
  | PREDICATE | CONSTANT_OP | MOV_CONSTANT | IMPLICIT
  | OTHER_OPCODE

datatype predicate =
    memop | loadi16 | loadi32 | alignedload | alignedload256 | alignedload512 | load
  | alignednontemporalstore | nontemporalstore | alignedstore | alignedstore256
  | alignedstore512 | store
  | zextloadi8 | zextloadi16 | sextloadi8 | sextloadi16 | sextloadi32
  | and_su
  | other_predicate

datatype evt = INVALID_SIMPLE_VALUE_TYPE | iPTR | SimpleVT ty

datatype error =
    TapeOutOfBounds
  | TableOutOfBounds
  | NullPointer
  | AssertionFailed
  | BadCast
  | Unreachable
  | OutOfFuel

datatype drscall =
    DRS_SwitchToInst mcdecodedinst
  | DRS_SwitchToBasicBlock nat
  | DRS_FinalizeBasicBlock
  | DRS_FinalizeFunction nat

text \<open>
  The object state of a \<^verbatim>\<open>DCFunction\<close>. \<open>Blocks\<close> is the block list of
  \<^verbatim>\<open>TheFunction\<close>, \<open>Builder\<close> the block the member \<^verbatim>\<open>Builder\<close> inserts into (it
  always inserts at the end of that block), \<open>NextId\<close> the number of instructions
  created so far, \<open>DRSCalls\<close> the notifications sent to the register semantics
  object, latest first.
\<close>

record dcfunction =
  BBByAddr :: "64 word \<rightharpoonup> nat"
  Blocks :: "basicblock list"
  ExitBB :: nat
  CallBBs :: "nat list"
  TheBB :: "nat option"
  TheMCBB :: "mcbasicblock option"
  Builder :: "nat option"
  Idx :: nat
  ResEVT :: evt
  Opcode :: nat
  Vals :: "val list"
  CurrentInst :: "mcdecodedinst option"
  NextId :: nat
  DRSCalls :: "drscall list"

type_synonym 'a M = "dcfunction \<Rightarrow> error + 'a \<times> dcfunction"

text \<open>
  What the translator is configured with and borrows: the three command line
  options, the three arrays of the semantic tape, the decoding of enumerators declared
  in headers, and the register semantics' register description.
\<close>

record env =
  EnableRegSetDiff :: bool
  EnableInstAddrSave :: bool
  TranslateUnknownToUndef :: bool
  OpcodeToSemaIdx :: "32 word list"
  SemanticsArray :: "nat list"
  ConstantArray :: "64 word list"
  semaOpcode :: "nat \<Rightarrow> semaop"
  simpleValueType :: "nat \<Rightarrow> evt"
  predicateOf :: "nat \<Rightarrow> predicate"
  NotAtomic :: "64 word"
  SequentiallyConsistent :: "64 word"
  SingleThread :: "64 word"
  CrossThread :: "64 word"
  current_instr_addr :: "64 word"
  getProgramCounter :: nat
  getRegType :: "nat \<Rightarrow> ty"
  getRegIntType :: "nat \<Rightarrow> nat"

text \<open>
  The target's virtual methods. The core defines \<^verbatim>\<open>translateComplexPattern\<close>
  itself, so a target either overrides it (\<open>Some\<close>) or not (\<open>None\<close>).
\<close>

record target =
  translateTargetInst :: "bool M"
  translateTargetOpcode :: "nat \<Rightarrow> bool M"
  translateCustomOperand :: "nat \<Rightarrow> nat \<Rightarrow> (val option) M"
  translateImplicit :: "nat \<Rightarrow> unit M"
  overrideComplexPattern :: "(nat \<Rightarrow> (val option) M) option"

section \<open>Sequencing\<close>

definition thn :: "'a M \<Rightarrow> ('a \<Rightarrow> 'b M) \<Rightarrow> 'b M" where
  "thn m f s = (case m s of Inl e \<Rightarrow> Inl e | Inr (a, s') \<Rightarrow> f a s')"

definition ret :: "'a \<Rightarrow> 'a M" where
  "ret a s = Inr (a, s)"

definition fail :: "error \<Rightarrow> 'a M" where
  "fail e s = Inl e"

definition upd :: "(dcfunction \<Rightarrow> dcfunction) \<Rightarrow> unit M" where
  "upd f s = Inr ((), f s)"

definition gets :: "(dcfunction \<Rightarrow> 'a) \<Rightarrow> 'a M" where
  "gets f s = Inr (f s, s)"

section \<open>The IR builder\<close>

text \<open>
  Modelled from the spec: the IR builder facade (\<^verbatim>\<open>DCIRBuilder\<close>, declared in a
  header) "emits" one instruction per operation at its insertion point, the end of a
  block. A builder without an insertion block creates the instruction and inserts it
  nowhere.
\<close>

definition appendInst :: "nat option \<Rightarrow> instr \<Rightarrow> dcfunction \<Rightarrow> dcfunction" where
  "appendInst bb i s =
     (case bb of
        None \<Rightarrow> s
      | Some b \<Rightarrow> s\<lparr>Blocks := (Blocks s)[b := (Blocks s ! b)\<lparr>body := body (Blocks s ! b) @ [i]\<rparr>]\<rparr>)"

definition emitAt :: "nat option \<Rightarrow> (nat \<Rightarrow> instr) \<Rightarrow> ty \<Rightarrow> val M" where
  "emitAt bb mk t s =
     Inr (Inst (NextId s) t, (appendInst bb (mk (NextId s)) s)\<lparr>NextId := Suc (NextId s)\<rparr>)"

definition emitVoidAt :: "nat option \<Rightarrow> instr \<Rightarrow> unit M" where
  "emitVoidAt bb i s = Inr ((), appendInst bb i s)"

definition emit :: "(nat \<Rightarrow> instr) \<Rightarrow> ty \<Rightarrow> val M" where
  "emit mk t = thn (gets Builder) (\<lambda>bb. emitAt bb mk t)"

definition emitVoid :: "instr \<Rightarrow> unit M" where
  "emitVoid i = thn (gets Builder) (\<lambda>bb. emitVoidAt bb i)"

definition BasicBlock_Create :: "string \<Rightarrow> nat M" where
  "BasicBlock_Create name s =
     Inr (length (Blocks s), s\<lparr>Blocks := Blocks s @ [\<lparr>bbname = name, body = []\<rparr>]\<rparr>)"

definition CreateCallAt :: "nat option \<Rightarrow> val \<Rightarrow> val list \<Rightarrow> val M" where
  "CreateCallAt bb f args = emitAt bb (\<lambda>i. CallInst i f args) (getReturnType f)"

definition CreateCall :: "val \<Rightarrow> val list \<Rightarrow> val M" where
  "CreateCall f args = thn (gets Builder) (\<lambda>bb. CreateCallAt bb f args)"

definition CreateUnreachable :: "unit M" where
  "CreateUnreachable = emitVoid UnreachableInst"

definition CreateBr :: "nat \<Rightarrow> unit M" where
  "CreateBr dest = emitVoid (BranchInst dest)"

definition CreateRetVoid :: "unit M" where
  "CreateRetVoid = emitVoid ReturnInst"

definition CreateBinOp :: "binaryops \<Rightarrow> val \<Rightarrow> val \<Rightarrow> val M" where
  "CreateBinOp opc l r = emit (\<lambda>i. BinaryOperator i opc l r) (getType l)"

definition CreateCast :: "castops \<Rightarrow> val \<Rightarrow> ty \<Rightarrow> val M" where
  "CreateCast opc v t = emit (\<lambda>i. CastInst i opc v t) t"

definition SetInsertPoint :: "nat \<Rightarrow> unit M" where
  "SetInsertPoint bb = upd (\<lambda>s. s\<lparr>Builder := Some bb\<rparr>)"

section \<open>Block names\<close>

text \<open>
  Modelled from the spec: \<^verbatim>\<open>utohexstr\<close> (a support routine declared in a header) is
  the \<open>hex(addr)\<close> of the block names: the hexadecimal digits of the address, most
  significant first, \<open>0\<close> for zero.
\<close>

definition hexdigit :: "nat \<Rightarrow> char" where
  "hexdigit n = ''0123456789ABCDEF'' ! n"

function hexdigits :: "nat \<Rightarrow> string \<Rightarrow> string" where
  "hexdigits x acc = (if x = 0 then acc else hexdigits (x div 16) (hexdigit (x mod 16) # acc))"
  by pat_completeness auto
termination
  by (relation "measure fst") auto

definition utohexstr :: "64 word \<Rightarrow> string" where
  "utohexstr X = (if X = 0 then ''0'' else hexdigits (unat X) [])"

section \<open>The basic block map\<close>

text \<open>
  \<^verbatim>\<open>BBByAddr[Addr]\<close> default-constructs a null entry for a missing key, and a null
  entry is treated as a missing one; both are \<open>None\<close>.
\<close>

definition getOrCreateBasicBlock :: "64 word \<Rightarrow> nat M" where
  "getOrCreateBasicBlock Addr s =
     (case BBByAddr s Addr of
        Some BB \<Rightarrow> Inr (BB, s)
      | None \<Rightarrow>
          thn (BasicBlock_Create (''bb_'' @ utohexstr Addr)) (\<lambda>BB.
          thn (upd (\<lambda>s. s\<lparr>BBByAddr := (BBByAddr s)(Addr \<mapsto> BB)\<rparr>)) (\<lambda>_.
          thn (CreateCallAt (Some BB) (IntrinsicDecl Intrinsic_trap []) []) (\<lambda>_.
          thn (emitVoidAt (Some BB) UnreachableInst) (\<lambda>_.
          ret BB)))) s)"


section \<open>The semantics tape reader, the value stack, the operands\<close>

text \<open>
  Modelled from the spec: \<^verbatim>\<open>Next\<close> and \<^verbatim>\<open>NextVT\<close> are declared in a header; the
  spec gives \<open>Next() = SemanticsArray[Idx++]\<close> and \<open>NextVT()\<close> as decoding a value
  type tag. A read past the end of the tape is undefined in the program and an error
  here.
\<close>

definition Next :: "env \<Rightarrow> nat M" where
  "Next E s =
     (if Idx s < length (SemanticsArray E)
      then Inr (SemanticsArray E ! Idx s, s\<lparr>Idx := Suc (Idx s)\<rparr>)
      else Inl TapeOutOfBounds)"

definition NextVT :: "env \<Rightarrow> evt M" where
  "NextVT E = thn (Next E) (\<lambda>t. ret (simpleValueType E t))"

definition getTypeForEVT :: "evt \<Rightarrow> ty M" where
  "getTypeForEVT e = (case e of SimpleVT t \<Rightarrow> ret t | _ \<Rightarrow> fail BadCast)"

definition getResType :: "ty M" where
  "getResType = thn (gets ResEVT) getTypeForEVT"

definition asIntegerType :: "ty \<Rightarrow> nat M" where
  "asIntegerType t = (case t of IntegerTy n \<Rightarrow> ret n | _ \<Rightarrow> fail BadCast)"

text \<open>
  Modelled from the spec: \<^verbatim>\<open>getNextOperand\<close> and \<^verbatim>\<open>registerResult\<close> are declared
  in a header; the spec describes the value stack: results are pushed, operands are
  popped. The head of \<open>Vals\<close> is the top of the stack; popping the empty stack is an
  error.
\<close>

definition getNextOperand :: "val M" where
  "getNextOperand s =
     (case Vals s of [] \<Rightarrow> Inl AssertionFailed | v # vs \<Rightarrow> Inr (v, s\<lparr>Vals := vs\<rparr>))"

definition registerResult :: "val \<Rightarrow> unit M" where
  "registerResult v = upd (\<lambda>s. s\<lparr>Vals := v # Vals s\<rparr>)"

text \<open>
  Modelled from the spec: \<^verbatim>\<open>getRegOp\<close> and \<^verbatim>\<open>getImmOp\<close> (header) read the
  register number and the immediate of an operand of the current instruction.
\<close>

definition getOperand :: "nat \<Rightarrow> mcoperand M" where
  "getOperand i s =
     (case CurrentInst s of
        None \<Rightarrow> Inl NullPointer
      | Some I \<Rightarrow> if i < length (InstOperands I) then Inr (InstOperands I ! i, s)
                  else Inl AssertionFailed)"

definition getRegOp :: "nat \<Rightarrow> nat M" where
  "getRegOp i = thn (getOperand i) (\<lambda>x. case x of Reg r \<Rightarrow> ret r | _ \<Rightarrow> fail AssertionFailed)"

definition getImmOp :: "nat \<Rightarrow> (64 word) M" where
  "getImmOp i = thn (getOperand i) (\<lambda>x. case x of Imm v \<Rightarrow> ret v | _ \<Rightarrow> fail AssertionFailed)"

text \<open>
  \<^verbatim>\<open>dyn_cast<ConstantInt>(V)\<close> with \<^verbatim>\<open>getZExtValue\<close>: the value of an integer
  constant, at the width of its type.
\<close>

fun asConstantInt :: "val \<Rightarrow> (64 word) option" where
  "asConstantInt (ConstantInt (IntegerTy n) v) = Some (take_bit n v)"
| "asConstantInt _ = None"

definition castConstantInt :: "val \<Rightarrow> (64 word) M" where
  "castConstantInt v = (case asConstantInt v of Some c \<Rightarrow> ret c | None \<Rightarrow> fail BadCast)"

section \<open>The register semantics\<close>

text \<open>
  Modelled from the spec: the register semantics object (\<^verbatim>\<open>DCRegisterSema\<close>) is an
  external collaborator. Its reads and writes of registers are the IR it emits at the
  insertion point, one instruction each, as the register intrinsics of the source's
  test show them; its notifications are recorded in \<open>DRSCalls\<close>.
\<close>

definition getReg :: "env \<Rightarrow> nat \<Rightarrow> val M" where
  "getReg E r = emit (\<lambda>i. GetReg i r) (getRegType E r)"

definition setReg :: "nat \<Rightarrow> val \<Rightarrow> unit M" where
  "setReg r v = emitVoid (SetReg r v)"

definition getRegAsInt :: "env \<Rightarrow> nat \<Rightarrow> val M" where
  "getRegAsInt E r = emit (\<lambda>i. GetRegAsInt i r) (IntegerTy (getRegIntType E r))"

definition insertBitsInValue :: "val \<Rightarrow> val \<Rightarrow> val M" where
  "insertBitsInValue whole narrow = emit (\<lambda>i. InsertBitsInValue i whole narrow) (getType whole)"

definition notifyDRS :: "drscall \<Rightarrow> unit M" where
  "notifyDRS c = upd (\<lambda>s. s\<lparr>DRSCalls := c # DRSCalls s\<rparr>)"

text \<open>
  \<^verbatim>\<open>saveAllLocalRegs\<close> and \<^verbatim>\<open>restoreLocalRegs\<close> insert before the instruction at
  a position of a block.
\<close>

definition insertBefore :: "nat \<Rightarrow> nat \<Rightarrow> instr \<Rightarrow> unit M" where
  "insertBefore bb pos i =
     upd (\<lambda>s. s\<lparr>Blocks := (Blocks s)[bb := (Blocks s ! bb)
            \<lparr>body := take pos (body (Blocks s ! bb)) @ [i] @ drop pos (body (Blocks s ! bb))\<rparr>]\<rparr>)"

definition saveAllLocalRegs :: "nat \<Rightarrow> nat \<Rightarrow> unit M" where
  "saveAllLocalRegs bb pos = insertBefore bb pos SaveAllLocalRegs"

definition restoreLocalRegs :: "nat \<Rightarrow> nat \<Rightarrow> unit M" where
  "restoreLocalRegs bb pos = insertBefore bb pos RestoreLocalRegs"

section \<open>Calls\<close>

definition assert :: "(dcfunction \<Rightarrow> bool) \<Rightarrow> unit M" where
  "assert P s = (if P s then Inr ((), s) else Inl AssertionFailed)"

definition getTheBB :: "nat M" where
  "getTheBB s = (case TheBB s of None \<Rightarrow> Inl NullPointer | Some bb \<Rightarrow> Inr (bb, s))"

definition getName :: "nat \<Rightarrow> string M" where
  "getName bb s = (if bb < length (Blocks s) then Inr (bbname (Blocks s ! bb), s) else Inl NullPointer)"

definition CallInstAddr :: "string M" where
  "CallInstAddr =
     thn (gets CurrentInst) (\<lambda>I.
     ret (case I of None \<Rightarrow> [] | Some I \<Rightarrow> utohexstr (Address I)))"

definition insertCallBB :: "val \<Rightarrow> nat M" where
  "insertCallBB Target =
     thn getTheBB (\<lambda>bb.
     thn (getName bb) (\<lambda>nm.
     thn (BasicBlock_Create (nm @ ''_call'')) (\<lambda>CallBB.
     thn (CreateCallAt (Some CallBB) Target [RegSetArg]) (\<lambda>_.
     thn (CreateBr CallBB) (\<lambda>_.
     thn (assert (\<lambda>s. Builder s = TheBB s)) (\<lambda>_.
     thn CallInstAddr (\<lambda>addr.
     thn (BasicBlock_Create
            (takeWhile (\<lambda>c. c \<noteq> CHR ''_'' \<and> c \<noteq> CHR ''c'') nm @ ''_c'' @ addr)) (\<lambda>new.
     thn (upd (\<lambda>s. s\<lparr>TheBB := Some new\<rparr>)) (\<lambda>_.
     thn (notifyDRS DRS_FinalizeBasicBlock) (\<lambda>_.
     thn (notifyDRS (DRS_SwitchToBasicBlock new)) (\<lambda>_.
     thn (SetInsertPoint new) (\<lambda>_.
     thn (emitVoidAt (Some CallBB) (BranchInst new)) (\<lambda>_.
     thn (upd (\<lambda>s. s\<lparr>CallBBs := CallBBs s @ [CallBB]\<rparr>)) (\<lambda>_.
     ret CallBB))))))))))))))"

definition insertTranslateAt :: "val \<Rightarrow> val M" where
  "insertTranslateAt OrigTarget =
     thn (CreateCast IntToPtr OrigTarget (PointerTy (IntegerTy 8))) (\<lambda>p.
     thn (CreateCall (IntrinsicDecl Intrinsic_dc_translate_at []) [p]) (\<lambda>Ptr.
     CreateCast BitCast Ptr (PointerTy FuncTy)))"

definition insertCall :: "val \<Rightarrow> unit M" where
  "insertCall CallTarget =
     thn (case asConstantInt CallTarget of
            Some Target \<Rightarrow> ret (Function Target)
          | None \<Rightarrow> insertTranslateAt CallTarget) (\<lambda>CallTarget.
     thn (insertCallBB CallTarget) (\<lambda>_. ret ()))"

section \<open>Binary operations and casts\<close>

definition translateBinOp :: "binaryops \<Rightarrow> unit M" where
  "translateBinOp Opc =
     thn getNextOperand (\<lambda>V1.
     thn getNextOperand (\<lambda>V2.
     thn (if isShift Opc \<and> getType V2 \<noteq> getType V1
          then CreateCast ZExt V2 (getType V1) else ret V2) (\<lambda>V2.
     thn (CreateBinOp Opc V1 V2) registerResult)))"

definition translateCastOp :: "castops \<Rightarrow> unit M" where
  "translateCastOp Opc =
     thn getResType (\<lambda>ResType.
     thn getNextOperand (\<lambda>Val.
     thn (CreateCast Opc Val ResType) registerResult))"


section \<open>Memory accesses\<close>

text \<open>
  The coercion of an address to a pointer type, which the source writes out four times
  (\<^verbatim>\<open>ISD::LOAD\<close>, \<^verbatim>\<open>ISD::STORE\<close> and the load and store predicates).
\<close>

definition coercePointer :: "val \<Rightarrow> ty \<Rightarrow> val M" where
  "coercePointer Ptr PtrTy =
     (if \<not> isPointerTy (getType Ptr) then CreateCast IntToPtr Ptr PtrTy
      else if getType Ptr \<noteq> PtrTy then CreateCast BitCast Ptr PtrTy
      else ret Ptr)"

definition CreateLoad :: "val \<Rightarrow> nat \<Rightarrow> val M" where
  "CreateLoad Ptr align = emit (\<lambda>i. LoadInst i Ptr align) (getPointerElementType (getType Ptr))"

definition translateLoad :: "unit M" where
  "translateLoad =
     thn getResType (\<lambda>ResType.
     thn getNextOperand (\<lambda>Ptr.
     thn (coercePointer Ptr (PointerTy ResType)) (\<lambda>Ptr.
     thn (CreateLoad Ptr 1) registerResult)))"

definition translateStore :: "unit M" where
  "translateStore =
     thn getNextOperand (\<lambda>Val.
     thn getNextOperand (\<lambda>Ptr.
     thn (coercePointer Ptr (PointerTy (getType Val))) (\<lambda>Ptr.
     emitVoid (StoreInst Val Ptr 1 False))))"

definition CreateBitOrPointerCast :: "val \<Rightarrow> ty \<Rightarrow> val M" where
  "CreateBitOrPointerCast V DestTy =
     (if isPointerTy (getType V) then CreateCast BitCast V DestTy
      else CreateCast IntToPtr V DestTy)"

definition translateExtLoad :: "ty \<Rightarrow> bool \<Rightarrow> bool M" where
  "translateExtLoad MemTy isSExt =
     thn getNextOperand (\<lambda>Ptr.
     thn (CreateBitOrPointerCast Ptr (PointerTy MemTy)) (\<lambda>Ptr.
     thn (emit (\<lambda>i. LoadInst i Ptr 0) MemTy) (\<lambda>V.
     thn getResType (\<lambda>ResType.
     thn (CreateCast (if isSExt then SExt else ZExt) V ResType) (\<lambda>r.
     thn (registerResult r) (\<lambda>_.
     ret True))))))"

fun translatePredicate :: "predicate \<Rightarrow> bool M" where
  "translatePredicate memop = thn translateLoad (\<lambda>_. ret True)"
| "translatePredicate loadi16 = thn translateLoad (\<lambda>_. ret True)"
| "translatePredicate loadi32 = thn translateLoad (\<lambda>_. ret True)"
| "translatePredicate alignedload = thn translateLoad (\<lambda>_. ret True)"
| "translatePredicate alignedload256 = thn translateLoad (\<lambda>_. ret True)"
| "translatePredicate alignedload512 = thn translateLoad (\<lambda>_. ret True)"
| "translatePredicate load = thn translateLoad (\<lambda>_. ret True)"
| "translatePredicate alignednontemporalstore = thn translateStore (\<lambda>_. ret True)"
| "translatePredicate nontemporalstore = thn translateStore (\<lambda>_. ret True)"
| "translatePredicate alignedstore = thn translateStore (\<lambda>_. ret True)"
| "translatePredicate alignedstore256 = thn translateStore (\<lambda>_. ret True)"
| "translatePredicate alignedstore512 = thn translateStore (\<lambda>_. ret True)"
| "translatePredicate store = thn translateStore (\<lambda>_. ret True)"
| "translatePredicate zextloadi8 = translateExtLoad (IntegerTy 8) False"
| "translatePredicate zextloadi16 = translateExtLoad (IntegerTy 16) False"
| "translatePredicate sextloadi8 = translateExtLoad (IntegerTy 8) True"
| "translatePredicate sextloadi16 = translateExtLoad (IntegerTy 16) True"
| "translatePredicate sextloadi32 = translateExtLoad (IntegerTy 32) True"
| "translatePredicate and_su = thn (translateBinOp And) (\<lambda>_. ret True)"
| "translatePredicate other_predicate = ret False"

section \<open>The cases of the opcode switch\<close>

fun binaryOpOf :: "isd_binary \<Rightarrow> binaryops" where
  "binaryOpOf ISD_ADD = Add"
| "binaryOpOf ISD_FADD = FAdd"
| "binaryOpOf ISD_SUB = Sub"
| "binaryOpOf ISD_FSUB = FSub"
| "binaryOpOf ISD_MUL = Mul"
| "binaryOpOf ISD_FMUL = FMul"
| "binaryOpOf ISD_UDIV = UDiv"
| "binaryOpOf ISD_SDIV = SDiv"
| "binaryOpOf ISD_FDIV = FDiv"
| "binaryOpOf ISD_UREM = URem"
| "binaryOpOf ISD_SREM = SRem"
| "binaryOpOf ISD_FREM = FRem"
| "binaryOpOf ISD_SHL = Shl"
| "binaryOpOf ISD_SRL = LShr"
| "binaryOpOf ISD_SRA = AShr"
| "binaryOpOf ISD_AND = And"
| "binaryOpOf ISD_OR = Or"
| "binaryOpOf ISD_XOR = Xor"

fun castOpOf :: "isd_cast \<Rightarrow> castops" where
  "castOpOf ISD_TRUNCATE = Trunc"
| "castOpOf ISD_BITCAST = BitCast"
| "castOpOf ISD_ZERO_EXTEND = ZExt"
| "castOpOf ISD_SIGN_EXTEND = SExt"
| "castOpOf ISD_FP_TO_UINT = FPToUI"
| "castOpOf ISD_FP_TO_SINT = FPToSI"
| "castOpOf ISD_UINT_TO_FP = UIToFP"
| "castOpOf ISD_SINT_TO_FP = SIToFP"
| "castOpOf ISD_FP_ROUND = FPTrunc"
| "castOpOf ISD_FP_EXTEND = FPExt"

definition translateFSQRT :: "unit M" where
  "translateFSQRT =
     thn getNextOperand (\<lambda>V.
     thn (CreateCall (IntrinsicDecl Intrinsic_sqrt [getType V]) [V]) registerResult)"

definition translateROTL :: "unit M" where
  "translateROTL =
     thn getNextOperand (\<lambda>LHS.
     thn (assert (\<lambda>_. isIntegerTy (getType LHS))) (\<lambda>_.
     thn getNextOperand (\<lambda>r.
     thn (CreateCast ZExt r (getType LHS)) (\<lambda>RHS.
     thn (CreateBinOp Shl LHS RHS) (\<lambda>Shl.
     thn (CreateBinOp Sub
            (ConstantInt (getType LHS) (of_nat (getPrimitiveSizeInBits (getType LHS)))) RHS) (\<lambda>d.
     thn (CreateBinOp LShr LHS d) (\<lambda>Shr.
     thn (CreateBinOp Or Shl Shr) registerResult)))))))"

definition translateInsertVectorElt :: "unit M" where
  "translateInsertVectorElt =
     thn getNextOperand (\<lambda>Vec.
     thn getNextOperand (\<lambda>Val.
     thn getNextOperand (\<lambda>Index.
     thn (emit (\<lambda>i. InsertElementInst i Vec Val Index) (getType Vec)) registerResult)))"

definition translateExtractVectorElt :: "unit M" where
  "translateExtractVectorElt =
     thn getNextOperand (\<lambda>Val.
     thn getNextOperand (\<lambda>Index.
     thn (case getType Val of VectorTy k t \<Rightarrow> ret t | _ \<Rightarrow> fail AssertionFailed) (\<lambda>t.
     thn (emit (\<lambda>i. ExtractElementInst i Val Index) t) registerResult)))"

text \<open>
  The cases \<^verbatim>\<open>ISD::SMUL_LOHI\<close> and \<^verbatim>\<open>ISD::UMUL_LOHI\<close>, which differ in the
  extension only (\<open>SExt\<close> and \<open>ZExt\<close>).
\<close>

definition translateMulLoHi :: "env \<Rightarrow> castops \<Rightarrow> unit M" where
  "translateMulLoHi E Ext =
     thn (NextVT E) (\<lambda>Re2EVT.
     thn getResType (\<lambda>lo.
     thn (asIntegerType lo) (\<lambda>LoBits.
     thn (getTypeForEVT Re2EVT) (\<lambda>hi.
     thn (asIntegerType hi) (\<lambda>HiBits.
     thn getNextOperand (\<lambda>a.
     thn (CreateCast Ext a (IntegerTy (LoBits + HiBits))) (\<lambda>Op1.
     thn getNextOperand (\<lambda>b.
     thn (CreateCast Ext b (IntegerTy (LoBits + HiBits))) (\<lambda>Op2.
     thn (CreateBinOp Mul Op1 Op2) (\<lambda>Full.
     thn (CreateCast Trunc Full (IntegerTy LoBits)) (\<lambda>l.
     thn (registerResult l) (\<lambda>_.
     thn (CreateBinOp LShr Full (ConstantInt (getType Full) (of_nat LoBits))) (\<lambda>sh.
     thn (CreateCast Trunc sh (IntegerTy HiBits)) registerResult)))))))))))))"

definition translateBRIND :: "env \<Rightarrow> unit M" where
  "translateBRIND E =
     thn getNextOperand (\<lambda>Op1.
     thn (setReg (getProgramCounter E) Op1) (\<lambda>_.
     thn (insertCall Op1) (\<lambda>_.
     thn (gets ExitBB) CreateBr)))"

definition translateBR :: "env \<Rightarrow> unit M" where
  "translateBR E =
     thn getNextOperand (\<lambda>Op1.
     thn (castConstantInt Op1) (\<lambda>Target.
     thn (setReg (getProgramCounter E) Op1) (\<lambda>_.
     thn (getOrCreateBasicBlock Target) CreateBr)))"

definition translatePUT_RC :: "env \<Rightarrow> unit M" where
  "translatePUT_RC E =
     thn (Next E) (\<lambda>MIOperandNo.
     thn (getRegOp MIOperandNo) (\<lambda>RegNo.
     thn getNextOperand (\<lambda>Res.
     thn (if isPointerTy (getType Res)
          then CreateCast PtrToInt Res (IntegerTy (getRegIntType E RegNo)) else ret Res) (\<lambda>Res.
     thn (if \<not> isIntegerTy (getType Res)
          then CreateCast BitCast Res (IntegerTy (getPrimitiveSizeInBits (getType Res)))
          else ret Res) (\<lambda>Res.
     thn (if getPrimitiveSizeInBits (getType Res) < getRegIntType E RegNo
          then thn (getRegAsInt E RegNo) (\<lambda>whole. insertBitsInValue whole Res)
          else ret Res) (\<lambda>Res.
     thn (assert (\<lambda>_. getType Res = IntegerTy (getRegIntType E RegNo))) (\<lambda>_.
     setReg RegNo Res)))))))"

definition translateGET_RC :: "env \<Rightarrow> unit M" where
  "translateGET_RC E =
     thn (Next E) (\<lambda>MIOperandNo.
     thn getResType (\<lambda>ResType.
     thn (getRegOp MIOperandNo) (\<lambda>RegNo.
     thn (getRegAsInt E RegNo) (\<lambda>Reg.
     thn (if getPrimitiveSizeInBits ResType < getPrimitiveSizeInBits (getType Reg)
          then CreateCast Trunc Reg (IntegerTy (getPrimitiveSizeInBits ResType))
          else ret Reg) (\<lambda>Reg.
     thn (if \<not> isIntegerTy ResType then CreateCast BitCast Reg ResType else ret Reg)
       registerResult)))))"

text \<open>The core's own \<^verbatim>\<open>translateComplexPattern\<close>: a null value.\<close>

definition translateComplexPattern :: "nat \<Rightarrow> (val option) M" where
  "translateComplexPattern Pattern = ret None"

definition callComplexPattern :: "target \<Rightarrow> nat \<Rightarrow> (val option) M" where
  "callComplexPattern T Pattern =
     (case overrideComplexPattern T of
        None \<Rightarrow> translateComplexPattern Pattern
      | Some f \<Rightarrow> f Pattern)"

definition translateMOV_CONSTANT :: "env \<Rightarrow> unit M" where
  "translateMOV_CONSTANT E =
     thn (Next E) (\<lambda>ValIdx.
     thn (gets ResEVT) (\<lambda>vt.
     thn (if vt = iPTR then ret (IntegerTy 64) else getTypeForEVT vt) (\<lambda>ResType.
     thn (if ValIdx < length (ConstantArray E) then ret (ConstantArray E ! ValIdx)
          else fail TableOutOfBounds) (\<lambda>c.
     registerResult (ConstantInt ResType c)))))"

definition translateATOMIC_FENCE :: "env \<Rightarrow> unit M" where
  "translateATOMIC_FENCE E =
     thn getNextOperand (\<lambda>a.
     thn (castConstantInt a) (\<lambda>OrdV.
     thn getNextOperand (\<lambda>b.
     thn (castConstantInt b) (\<lambda>ScopeV.
     if OrdV \<le> NotAtomic E \<or> OrdV > SequentiallyConsistent E then fail Unreachable
     else if ScopeV \<noteq> SingleThread E \<and> ScopeV \<noteq> CrossThread E then fail Unreachable
     else emitVoid (FenceInst OrdV ScopeV)))))"

section \<open>Translating one semantic opcode\<close>

definition translateOpcode :: "env \<Rightarrow> target \<Rightarrow> nat \<Rightarrow> bool M" where
  "translateOpcode E T Opc =
     thn (NextVT E) (\<lambda>vt.
     thn (upd (\<lambda>s. s\<lparr>ResEVT := vt\<rparr>)) (\<lambda>_.
     case semaOpcode E Opc of
       TARGET_OPCODE \<Rightarrow> translateTargetOpcode T Opc
     | ISD_BINARY b \<Rightarrow> thn (translateBinOp (binaryOpOf b)) (\<lambda>_. ret True)
     | ISD_CAST c \<Rightarrow> thn (translateCastOp (castOpOf c)) (\<lambda>_. ret True)
     | ISD_FSQRT \<Rightarrow> thn translateFSQRT (\<lambda>_. ret True)
     | ISD_ROTL \<Rightarrow> thn translateROTL (\<lambda>_. ret True)
     | ISD_INSERT_VECTOR_ELT \<Rightarrow> thn translateInsertVectorElt (\<lambda>_. ret True)
     | ISD_EXTRACT_VECTOR_ELT \<Rightarrow> thn translateExtractVectorElt (\<lambda>_. ret True)
     | ISD_SMUL_LOHI \<Rightarrow> thn (translateMulLoHi E SExt) (\<lambda>_. ret True)
     | ISD_UMUL_LOHI \<Rightarrow> thn (translateMulLoHi E ZExt) (\<lambda>_. ret True)
     | ISD_LOAD \<Rightarrow> thn translateLoad (\<lambda>_. ret True)
     | ISD_STORE \<Rightarrow> thn translateStore (\<lambda>_. ret True)
     | ISD_BRIND \<Rightarrow> thn (translateBRIND E) (\<lambda>_. ret True)
     | ISD_BR \<Rightarrow> thn (translateBR E) (\<lambda>_. ret True)
     | ISD_TRAP \<Rightarrow> thn (CreateCall (IntrinsicDecl Intrinsic_trap []) []) (\<lambda>_. ret True)
     | PUT_RC \<Rightarrow> thn (translatePUT_RC E) (\<lambda>_. ret True)
     | PUT_REG \<Rightarrow>
         thn (Next E) (\<lambda>RegNo.
         thn getNextOperand (\<lambda>Res.
         thn (setReg RegNo Res) (\<lambda>_. ret True)))
     | GET_RC \<Rightarrow> thn (translateGET_RC E) (\<lambda>_. ret True)
     | GET_REG \<Rightarrow>
         thn (Next E) (\<lambda>RegNo.
         thn (getReg E RegNo) (\<lambda>RegVal.
         thn (registerResult RegVal) (\<lambda>_. ret True)))
     | CUSTOM_OP \<Rightarrow>
         thn (Next E) (\<lambda>OperandType.
         thn (Next E) (\<lambda>MIOperandNo.
         thn (translateCustomOperand T OperandType MIOperandNo) (\<lambda>Op.
         case Op of None \<Rightarrow> ret False
         | Some v \<Rightarrow> thn (registerResult v) (\<lambda>_. ret True))))
     | COMPLEX_PATTERN \<Rightarrow>
         thn (Next E) (\<lambda>Pattern.
         thn (callComplexPattern T Pattern) (\<lambda>Op.
         case Op of None \<Rightarrow> ret False
         | Some v \<Rightarrow> thn (registerResult v) (\<lambda>_. ret True)))
     | PREDICATE \<Rightarrow>
         thn (Next E) (\<lambda>Pred.
         thn (translatePredicate (predicateOf E Pred)) (\<lambda>ok.
         if \<not> ok then ret False else ret True))
     | CONSTANT_OP \<Rightarrow>
         thn (Next E) (\<lambda>MIOperandNo.
         thn getResType (\<lambda>ResType.
         thn (asIntegerType ResType) (\<lambda>_.
         thn (getImmOp MIOperandNo) (\<lambda>imm.
         thn (registerResult (ConstantInt ResType imm)) (\<lambda>_. ret True)))))
     | MOV_CONSTANT \<Rightarrow> thn (translateMOV_CONSTANT E) (\<lambda>_. ret True)
     | IMPLICIT \<Rightarrow>
         thn (Next E) (\<lambda>RegNo.
         thn (translateImplicit T RegNo) (\<lambda>_. ret True))
     | ISD_BSWAP \<Rightarrow>
         thn getResType (\<lambda>ResType.
         thn getNextOperand (\<lambda>Op.
         thn (CreateCall (IntrinsicDecl Intrinsic_bswap [ResType]) [Op]) (\<lambda>r.
         thn (registerResult r) (\<lambda>_. ret True))))
     | ISD_ATOMIC_FENCE \<Rightarrow> thn (translateATOMIC_FENCE E) (\<lambda>_. ret True)
     | END_OF_INSTRUCTION \<Rightarrow> ret False
     | OTHER_OPCODE \<Rightarrow> ret False))"

section \<open>Translating one instruction\<close>

text \<open>
  The loop of \<^verbatim>\<open>tryTranslateInst\<close>. Each round reads at least one token, but a
  target hook may move \<open>Idx\<close>, so the loop is bounded by fuel.
\<close>

fun translateOpcodes :: "nat \<Rightarrow> env \<Rightarrow> target \<Rightarrow> bool M" where
  "translateOpcodes 0 E T = fail OutOfFuel"
| "translateOpcodes (Suc n) E T =
     thn (Next E) (\<lambda>tok.
     thn (upd (\<lambda>s. s\<lparr>Opcode := tok\<rparr>)) (\<lambda>_.
     if semaOpcode E tok = END_OF_INSTRUCTION then ret True
     else thn (translateOpcode E T tok) (\<lambda>ok.
          if \<not> ok then ret False else translateOpcodes n E T)))"

definition getCurrentInst :: "mcdecodedinst M" where
  "getCurrentInst s = (case CurrentInst s of None \<Rightarrow> Inl NullPointer | Some I \<Rightarrow> Inr (I, s))"

definition lookupSemaIdx :: "env \<Rightarrow> nat \<Rightarrow> (32 word) M" where
  "lookupSemaIdx E opc =
     (if opc < length (OpcodeToSemaIdx E) then ret (OpcodeToSemaIdx E ! opc)
      else fail TableOutOfBounds)"

definition advancePC :: "env \<Rightarrow> mcdecodedinst \<Rightarrow> unit M" where
  "advancePC E I =
     thn (getReg E (getProgramCounter E)) (\<lambda>OldPC.
     thn (CreateBinOp Add OldPC (ConstantInt (getType OldPC) (Size I))) (\<lambda>NewPC.
     setReg (getProgramCounter E) NewPC))"

definition tryTranslateInst :: "nat \<Rightarrow> env \<Rightarrow> target \<Rightarrow> bool M" where
  "tryTranslateInst fuel E T =
     thn (translateTargetInst T) (\<lambda>handled.
     if handled then ret True
     else
       thn getCurrentInst (\<lambda>I.
       thn (lookupSemaIdx E (InstOpcode I)) (\<lambda>i.
       thn (upd (\<lambda>s. s\<lparr>Idx := unat i\<rparr>)) (\<lambda>_.
       if i = - 1 then ret False
       else
         thn (advancePC E I) (\<lambda>_.
         translateOpcodes fuel E T)))))"

definition translateInst :: "nat \<Rightarrow> env \<Rightarrow> target \<Rightarrow> mcdecodedinst \<Rightarrow> bool M" where
  "translateInst fuel E T DecodedInst =
     thn (upd (\<lambda>s. s\<lparr>CurrentInst := Some DecodedInst\<rparr>)) (\<lambda>_.
     thn (notifyDRS (DRS_SwitchToInst DecodedInst)) (\<lambda>_.
     thn (if EnableInstAddrSave E
          then emitVoid (StoreInst (ConstantInt (IntegerTy 64) (Address DecodedInst))
                 (ConstIntToPtr (ConstantInt (IntegerTy 64) (current_instr_addr E))
                    (PointerTy (IntegerTy 64))) 0 True)
          else ret ()) (\<lambda>_.
     thn (tryTranslateInst fuel E T) (\<lambda>Success.
     thn (if \<not> Success \<and> TranslateUnknownToUndef E
          then thn (CreateCall (IntrinsicDecl Intrinsic_trap []) []) (\<lambda>_.
               thn CreateUnreachable (\<lambda>_. ret True))
          else ret Success) (\<lambda>Success.
     thn (upd (\<lambda>s. s\<lparr>Vals := []\<rparr>)) (\<lambda>_.
     thn (upd (\<lambda>s. s\<lparr>CurrentInst := None\<rparr>)) (\<lambda>_.
     ret Success)))))))"


section \<open>Basic blocks of the function\<close>

definition prepareBasicBlockForInsertion :: "nat \<Rightarrow> unit M" where
  "prepareBasicBlockForInsertion BB =
     thn (assert (\<lambda>s. BB < length (Blocks s) \<and> length (body (Blocks s ! BB)) = 2
                      \<and> body (Blocks s ! BB) ! 1 = UnreachableInst)) (\<lambda>_.
     thn (upd (\<lambda>s. s\<lparr>Blocks := (Blocks s)[BB := (Blocks s ! BB)\<lparr>body := tl (body (Blocks s ! BB))\<rparr>]\<rparr>)) (\<lambda>_.
     upd (\<lambda>s. s\<lparr>Blocks := (Blocks s)[BB := (Blocks s ! BB)\<lparr>body := tl (body (Blocks s ! BB))\<rparr>]\<rparr>)))"

definition SwitchToBasicBlock :: "env \<Rightarrow> 64 word \<Rightarrow> unit M" where
  "SwitchToBasicBlock E BeginAddr =
     thn (getOrCreateBasicBlock BeginAddr) (\<lambda>BB.
     thn (upd (\<lambda>s. s\<lparr>TheBB := Some BB\<rparr>)) (\<lambda>_.
     thn (prepareBasicBlockForInsertion BB) (\<lambda>_.
     thn (SetInsertPoint BB) (\<lambda>_.
     thn (notifyDRS (DRS_SwitchToBasicBlock BB)) (\<lambda>_.
     setReg (getProgramCounter E)
       (ConstantInt (getRegType E (getProgramCounter E)) BeginAddr))))))"

definition SwitchToMCBasicBlock :: "env \<Rightarrow> mcbasicblock \<Rightarrow> unit M" where
  "SwitchToMCBasicBlock E MCBB =
     thn (upd (\<lambda>s. s\<lparr>TheMCBB := Some MCBB\<rparr>)) (\<lambda>_.
     SwitchToBasicBlock E (StartAddr MCBB))"

definition getBasicBlockEndAddress :: "(64 word) M" where
  "getBasicBlockEndAddress s =
     (case TheMCBB s of None \<Rightarrow> Inl AssertionFailed | Some b \<Rightarrow> Inr (EndAddr b, s))"

fun isTerminator :: "instr \<Rightarrow> bool" where
  "isTerminator UnreachableInst = True"
| "isTerminator (BranchInst b) = True"
| "isTerminator ReturnInst = True"
| "isTerminator _ = False"

definition getTerminator :: "nat \<Rightarrow> (instr option) M" where
  "getTerminator BB s =
     (if BB < length (Blocks s)
      then Inr (case body (Blocks s ! BB) of
                  [] \<Rightarrow> None
                | is \<Rightarrow> if isTerminator (last is) then Some (last is) else None, s)
      else Inl NullPointer)"

definition FinalizeBasicBlock :: "unit M" where
  "FinalizeBasicBlock =
     thn getTheBB (\<lambda>BB.
     thn (getTerminator BB) (\<lambda>t.
     thn (case t of
            None \<Rightarrow>
              thn getBasicBlockEndAddress (\<lambda>a.
              thn (getOrCreateBasicBlock a) (\<lambda>dest.
              emitVoidAt (Some BB) (BranchInst dest)))
          | Some _ \<Rightarrow> ret ()) (\<lambda>_.
     thn (notifyDRS DRS_FinalizeBasicBlock) (\<lambda>_.
     thn (upd (\<lambda>s. s\<lparr>TheBB := None\<rparr>)) (\<lambda>_.
     upd (\<lambda>s. s\<lparr>TheMCBB := None\<rparr>))))))"

definition createExternalTailCallBB :: "env \<Rightarrow> 64 word \<Rightarrow> unit M" where
  "createExternalTailCallBB E Addr =
     thn (SwitchToBasicBlock E Addr) (\<lambda>_.
     thn (insertCallBB (Function Addr)) (\<lambda>_.
     CreateRetVoid))"

section \<open>Construction and destruction\<close>

text \<open>
  The member initialisers of the constructor give the state \<open>init\<close>; the body of the
  constructor runs from it.
\<close>

definition init :: dcfunction where
  "init = \<lparr>BBByAddr = Map.empty, Blocks = [], ExitBB = 0, CallBBs = [], TheBB = None,
           TheMCBB = None, Builder = None, Idx = 0, ResEVT = INVALID_SIMPLE_VALUE_TYPE,
           Opcode = 0, Vals = [], CurrentInst = None, NextId = 0, DRSCalls = []\<rparr>"

definition DCFunction :: "env \<Rightarrow> mcfunction \<Rightarrow> unit M" where
  "DCFunction E MCF =
     thn (assert (\<lambda>_. FnBlocks MCF \<noteq> [])) (\<lambda>_.
     thn (assert (\<lambda>s. Blocks s = [])) (\<lambda>_.
     thn (BasicBlock_Create (''entry_fn_'' @ utohexstr (FnStartAddr MCF))) (\<lambda>entry.
     thn (upd (\<lambda>s. s\<lparr>TheBB := Some entry\<rparr>)) (\<lambda>_.
     thn (BasicBlock_Create (''exit_fn_'' @ utohexstr (FnStartAddr MCF))) (\<lambda>exit.
     thn (upd (\<lambda>s. s\<lparr>ExitBB := exit\<rparr>)) (\<lambda>_.
     thn (SetInsertPoint entry) (\<lambda>_.
     thn (if EnableRegSetDiff E then
            thn (emit (\<lambda>i. AllocaInst i RegSetTy) (PointerTy RegSetTy)) (\<lambda>SavedRegSet.
            thn (CreateLoad RegSetArg 0) (\<lambda>old.
            thn (emitVoid (StoreInst old SavedRegSet 0 False)) (\<lambda>_.
            thn (BasicBlock_Create (''diff_exit_fn_'' @ utohexstr (FnStartAddr MCF))) (\<lambda>DiffExitBB.
            thn (emitAt (Some DiffExitBB)
                   (\<lambda>i. CastInst i IntToPtr (ConstantInt (IntegerTy 64) (FnStartAddr MCF))
                          (PointerTy (IntegerTy 8)))
                   (PointerTy (IntegerTy 8))) (\<lambda>FnAddr.
            thn (CreateCallAt (Some DiffExitBB) RegSetDiffFunction
                   [FnAddr, SavedRegSet, RegSetArg]) (\<lambda>_.
            thn (emitVoidAt (Some DiffExitBB) ReturnInst) (\<lambda>_.
            emitVoidAt (Some exit) (BranchInst DiffExitBB))))))))
          else emitVoidAt (Some exit) ReturnInst) (\<lambda>_.
     thn (getOrCreateBasicBlock (FnStartAddr MCF)) CreateBr))))))))"

text \<open>
  The destructor. \<open>CallI\<close> starts at position 0 of the call block; after the insertion
  before it the call is at position 1, and \<open>++CallI\<close> is position 2.
\<close>

fun wrapCallBBs :: "nat list \<Rightarrow> unit M" where
  "wrapCallBBs [] = ret ()"
| "wrapCallBBs (CallBB # rest) =
     thn (assert (\<lambda>s. CallBB < length (Blocks s) \<and> length (body (Blocks s ! CallBB)) = 2)) (\<lambda>_.
     thn (saveAllLocalRegs CallBB 0) (\<lambda>_.
     thn (restoreLocalRegs CallBB 2) (\<lambda>_.
     wrapCallBBs rest)))"

definition DCFunction_dtor :: "unit M" where
  "DCFunction_dtor =
     thn (gets CallBBs) (\<lambda>bbs.
     thn (wrapCallBBs bbs) (\<lambda>_.
     thn (gets ExitBB) (\<lambda>exit.
     notifyDRS (DRS_FinalizeFunction exit))))"


section \<open>A small target\<close>

text \<open>
  A target for the examples below: eight semantic opcodes, value type tags that give
  their own width, hooks that decline everything, and a tape with the semantics of six
  machine opcodes: 0 a direct jump to the constant \<open>0x2000\<close>, 1 a jump through register
  3, 2 without semantics, 3 a complex pattern, 4 an indirect jump to the constant
  \<open>0x2000\<close>, 5 a signed wide multiplication of registers 1 and 2 into registers 4 and 5.
\<close>

definition demoSemaOpcode :: "nat \<Rightarrow> semaop" where
  "demoSemaOpcode n =
     (if n = 0 then END_OF_INSTRUCTION
      else if n = 1 then MOV_CONSTANT
      else if n = 2 then ISD_BR
      else if n = 3 then ISD_BRIND
      else if n = 4 then COMPLEX_PATTERN
      else if n = 5 then GET_REG
      else if n = 6 then ISD_SMUL_LOHI
      else if n = 7 then PUT_REG
      else OTHER_OPCODE)"

definition demoValueType :: "nat \<Rightarrow> evt" where
  "demoValueType n =
     (if n = 0 then SimpleVT VoidTy else if n = 1 then iPTR else SimpleVT (IntegerTy n))"

definition demoEnv :: "bool \<Rightarrow> bool \<Rightarrow> env" where
  "demoEnv diff undef =
     \<lparr>EnableRegSetDiff = diff, EnableInstAddrSave = False, TranslateUnknownToUndef = undef,
      OpcodeToSemaIdx = [0, 6, - 1, 12, 16, 22],
      SemanticsArray =
        [1, 64, 0, 2, 0, 0,
         5, 64, 3, 3, 0, 0,
         4, 64, 7, 0,
         1, 64, 0, 3, 0, 0,
         5, 64, 1, 5, 64, 2, 6, 64, 64, 7, 0, 4, 7, 0, 5, 0],
      ConstantArray = [8192],
      semaOpcode = demoSemaOpcode, simpleValueType = demoValueType,
      predicateOf = (\<lambda>_. other_predicate),
      NotAtomic = 0, SequentiallyConsistent = 7, SingleThread = 0, CrossThread = 1,
      current_instr_addr = 0, getProgramCounter = 0,
      getRegType = (\<lambda>_. IntegerTy 64), getRegIntType = (\<lambda>_. 64)\<rparr>"

definition demoTarget :: target where
  "demoTarget =
     \<lparr>translateTargetInst = ret False,
      translateTargetOpcode = (\<lambda>_. ret False),
      translateCustomOperand = (\<lambda>_ _. ret None),
      translateImplicit = (\<lambda>_. ret ()),
      overrideComplexPattern = None\<rparr>"

definition demoInst :: "nat \<Rightarrow> mcdecodedinst" where
  "demoInst opc = \<lparr>Address = 4096, Size = 2, InstOpcode = opc, InstOperands = []\<rparr>"

text \<open>A state with an open block \<open>bb_1000\<close> and the exit block.\<close>

definition demoState :: dcfunction where
  "demoState =
     init\<lparr>Blocks := [\<lparr>bbname = ''bb_1000'', body = []\<rparr>,
                     \<lparr>bbname = ''exit_fn_1000'', body = [ReturnInst]\<rparr>],
          ExitBB := 1, TheBB := Some 0, Builder := Some 0\<rparr>"

section \<open>Observing the emitted function\<close>

definition returned :: "error + 'a \<times> dcfunction \<Rightarrow> 'a option" where
  "returned r = (case r of Inl e \<Rightarrow> None | Inr (a, s) \<Rightarrow> Some a)"

definition blocksOf :: "error + 'a \<times> dcfunction \<Rightarrow> basicblock list" where
  "blocksOf r = (case r of Inl e \<Rightarrow> [] | Inr (a, s) \<Rightarrow> Blocks s)"

fun isTranslateAtCall :: "instr \<Rightarrow> bool" where
  "isTranslateAtCall (CallInst i (IntrinsicDecl Intrinsic_dc_translate_at ts) args) = True"
| "isTranslateAtCall _ = False"

definition callsTranslateAt :: "basicblock list \<Rightarrow> bool" where
  "callsTranslateAt bs = list_ex (\<lambda>b. list_ex isTranslateAtCall (body b)) bs"






section \<open>Invariants of the translation\<close>

text \<open>
  An operation preserves a property of the state when every state it returns from a
  state with the property has the property.
\<close>

definition preserves :: "(dcfunction \<Rightarrow> bool) \<Rightarrow> 'a M \<Rightarrow> bool" where
  "preserves I m \<longleftrightarrow> (\<forall>s a s'. I s \<longrightarrow> m s = Inr (a, s') \<longrightarrow> I s')"

text \<open>What is assumed of a target: its hooks preserve the property.\<close>

definition hooks_preserve :: "(dcfunction \<Rightarrow> bool) \<Rightarrow> target \<Rightarrow> bool" where
  "hooks_preserve I T \<longleftrightarrow>
     preserves I (translateTargetInst T)
   \<and> (\<forall>opc. preserves I (translateTargetOpcode T opc))
   \<and> (\<forall>ty n. preserves I (translateCustomOperand T ty n))
   \<and> (\<forall>r. preserves I (translateImplicit T r))
   \<and> (\<forall>f p. overrideComplexPattern T = Some f \<longrightarrow> preserves I (f p))"

text \<open>
  The function has only grown since the state \<open>s0\<close>: every block of \<open>s0\<close> is still
  there, with the instructions it had as the first ones of its body.
\<close>

definition grows :: "dcfunction \<Rightarrow> dcfunction \<Rightarrow> bool" where
  "grows s0 s \<longleftrightarrow>
     length (Blocks s0) \<le> length (Blocks s)
   \<and> (\<forall>b < length (Blocks s0). prefix (body (Blocks s0 ! b)) (body (Blocks s ! b)))"

text \<open>
  The recorded call blocks: each is a block of the function that consists of a call and
  a branch, is recorded once, is neither the current block nor the insertion block nor
  the block of an address.
\<close>

fun isCallBlock :: "instr list \<Rightarrow> bool" where
  "isCallBlock [CallInst i f args, BranchInst d] = True"
| "isCallBlock _ = False"

definition callInv :: "dcfunction \<Rightarrow> bool" where
  "callInv s \<longleftrightarrow>
     distinct (CallBBs s)
   \<and> (\<forall>b \<in> set (CallBBs s).
        b < length (Blocks s) \<and> isCallBlock (body (Blocks s ! b))
      \<and> Builder s \<noteq> Some b \<and> TheBB s \<noteq> Some b)
   \<and> (\<forall>a b. BBByAddr s a = Some b \<longrightarrow> b < length (Blocks s) \<and> b \<notin> set (CallBBs s))"

text \<open>
  The states a \<^verbatim>\<open>DCFunction\<close> object goes through: the constructor, then the
  operations of the class in any order.
\<close>

inductive reachable :: "env \<Rightarrow> target \<Rightarrow> dcfunction \<Rightarrow> bool" for E :: env and T :: target where
  constructed: "DCFunction E MCF init = Inr ((), s) \<Longrightarrow> reachable E T s"
| switched: "reachable E T s \<Longrightarrow> SwitchToMCBasicBlock E MCBB s = Inr ((), s') \<Longrightarrow> reachable E T s'"
| translated: "reachable E T s \<Longrightarrow> translateInst fuel E T I s = Inr (ok, s') \<Longrightarrow> reachable E T s'"
| finalized: "reachable E T s \<Longrightarrow> FinalizeBasicBlock s = Inr ((), s') \<Longrightarrow> reachable E T s'"
| tail_called: "reachable E T s \<Longrightarrow> createExternalTailCallBB E Addr s = Inr ((), s') \<Longrightarrow> reachable E T s'"

text \<open>
  A property is stable when the steps that the translation of an opcode is made of
  preserve it: an instruction inserted at the insertion point, a change of the scratch
  fields, a block got from the block map, a call block inserted.
\<close>

definition step_stable :: "(dcfunction \<Rightarrow> bool) \<Rightarrow> bool" where
  "step_stable I \<longleftrightarrow>
     (\<forall>s i. I s \<longrightarrow> I (appendInst (Builder s) i s))
   \<and> (\<forall>s. I s \<longrightarrow>
         (\<forall>n. I (s\<lparr>NextId := n\<rparr>)) \<and> (\<forall>v. I (s\<lparr>Vals := v\<rparr>)) \<and> (\<forall>k. I (s\<lparr>Idx := k\<rparr>))
       \<and> (\<forall>e. I (s\<lparr>ResEVT := e\<rparr>)) \<and> (\<forall>k. I (s\<lparr>Opcode := k\<rparr>))
       \<and> (\<forall>c. I (s\<lparr>CurrentInst := c\<rparr>)) \<and> (\<forall>d. I (s\<lparr>DRSCalls := d\<rparr>)))
   \<and> (\<forall>a. preserves I (getOrCreateBasicBlock a))
   \<and> (\<forall>v. preserves I (insertCallBB v))"




text \<open>
  A function at \<open>0x1000\<close> whose only block is a jump through register 3.
\<close>

definition demoIndirect :: "error + bool \<times> dcfunction" where
  "demoIndirect =
     thn (DCFunction (demoEnv False False)
            \<lparr>FnStartAddr = 4096, FnBlocks = [\<lparr>StartAddr = 4096, EndAddr = 4098\<rparr>]\<rparr>) (\<lambda>_.
     thn (SwitchToMCBasicBlock (demoEnv False False) \<lparr>StartAddr = 4096, EndAddr = 4098\<rparr>) (\<lambda>_.
     translateInst 3 (demoEnv False False) demoTarget (demoInst 1))) init"


section \<open>Rules for sequencing\<close>

lemma thn_assoc: "thn (thn m f) g s = thn m (\<lambda>a. thn (f a) g) s"
  by (simp add: thn_def split: sum.splits)

lemma thn_ret: "thn (ret a) f s = f a s"
  by (simp add: thn_def ret_def)

lemma thn_fail: "thn (fail e) f s = Inl e"
  by (simp add: thn_def fail_def)

lemma thn_unfold: "m = m' \<Longrightarrow> thn m f s = thn m' f s"
  by simp

lemma thn_upd: "thn (upd g) f s = f () (g s)"
  by (simp add: thn_def upd_def)

lemma thn_gets: "thn (gets g) f s = f (g s) s"
  by (simp add: thn_def gets_def)

lemma thn_if: "thn (if c then a else b) f s = (if c then thn a f s else thn b f s)"
  by simp

lemma thn_case_option:
  "thn (case x of None \<Rightarrow> a | Some v \<Rightarrow> b v) f s =
     (case x of None \<Rightarrow> thn a f s | Some v \<Rightarrow> thn (b v) f s)"
  by (simp split: option.splits)

lemma if_app: "(if c then a else b) s = (if c then a s else b s)"
  by simp

lemma thn_Inr_iff:
  "thn m f s = Inr r \<longleftrightarrow> (\<exists>a s'. m s = Inr (a, s') \<and> f a s' = Inr r)"
  by (auto simp: thn_def split: sum.splits)

lemma thn_eval: "m s = Inr (a, s') \<Longrightarrow> thn m f s = f a s'"
  by (simp add: thn_def)

lemma thn_emitAt:
  "thn (emitAt bb mk t) f s =
     f (Inst (NextId s) t) ((appendInst bb (mk (NextId s)) s)\<lparr>NextId := Suc (NextId s)\<rparr>)"
  by (simp add: thn_def emitAt_def)

lemma thn_emitVoidAt: "thn (emitVoidAt bb i) f s = f () (appendInst bb i s)"
  by (simp add: thn_def emitVoidAt_def)

lemma thn_BasicBlock_Create:
  "thn (BasicBlock_Create name) f s =
     f (length (Blocks s)) (s\<lparr>Blocks := Blocks s @ [\<lparr>bbname = name, body = []\<rparr>]\<rparr>)"
  by (simp add: thn_def BasicBlock_Create_def)

lemma thn_Next:
  "thn (Next E) f s =
     (if Idx s < length (SemanticsArray E)
      then f (SemanticsArray E ! Idx s) (s\<lparr>Idx := Suc (Idx s)\<rparr>) else Inl TapeOutOfBounds)"
  by (simp add: thn_def Next_def)

lemma thn_getNextOperand:
  "thn getNextOperand f s =
     (case Vals s of [] \<Rightarrow> Inl AssertionFailed | v # vs \<Rightarrow> f v (s\<lparr>Vals := vs\<rparr>))"
  by (simp add: thn_def getNextOperand_def split: list.splits)

lemma thn_assert: "thn (assert P) f s = (if P s then f () s else Inl AssertionFailed)"
  by (simp add: thn_def assert_def)

lemma thn_getTheBB:
  "thn getTheBB f s = (case TheBB s of None \<Rightarrow> Inl NullPointer | Some bb \<Rightarrow> f bb s)"
  by (simp add: thn_def getTheBB_def split: option.splits)

lemma thn_getName:
  "thn (getName bb) f s =
     (if bb < length (Blocks s) then f (bbname (Blocks s ! bb)) s else Inl NullPointer)"
  by (simp add: thn_def getName_def)

lemma thn_getOperand:
  "thn (getOperand i) f s =
     (case CurrentInst s of
        None \<Rightarrow> Inl NullPointer
      | Some I \<Rightarrow> if i < length (InstOperands I) then f (InstOperands I ! i) s
                  else Inl AssertionFailed)"
  by (simp add: thn_def getOperand_def split: option.splits)

lemma thn_getCurrentInst:
  "thn getCurrentInst f s = (case CurrentInst s of None \<Rightarrow> Inl NullPointer | Some I \<Rightarrow> f I s)"
  by (simp add: thn_def getCurrentInst_def split: option.splits)

lemma thn_getBasicBlockEndAddress:
  "thn getBasicBlockEndAddress f s =
     (case TheMCBB s of None \<Rightarrow> Inl AssertionFailed | Some b \<Rightarrow> f (EndAddr b) s)"
  by (simp add: thn_def getBasicBlockEndAddress_def split: option.splits)

lemma thn_getTerminator:
  "thn (getTerminator BB) f s =
     (if BB < length (Blocks s)
      then f (case body (Blocks s ! BB) of
                [] \<Rightarrow> None
              | is \<Rightarrow> if isTerminator (last is) then Some (last is) else None) s
      else Inl NullPointer)"
  by (simp add: thn_def getTerminator_def)

lemmas thn_rules =
  thn_assoc thn_ret thn_fail thn_upd thn_gets thn_if thn_case_option thn_emitAt thn_emitVoidAt
  thn_BasicBlock_Create thn_Next thn_getNextOperand thn_assert thn_getTheBB thn_getName
  thn_getOperand thn_getCurrentInst thn_getBasicBlockEndAddress thn_getTerminator

text \<open>The same operations at the end of a sequence.\<close>

lemmas tail_rules =
  ret_def fail_def upd_def gets_def emitAt_def emitVoidAt_def BasicBlock_Create_def

lemma getOrCreateBasicBlock_eq:
  "getOrCreateBasicBlock Addr s =
     (case BBByAddr s Addr of
        Some BB \<Rightarrow> Inr (BB, s)
      | None \<Rightarrow>
          Inr (length (Blocks s),
            s\<lparr>BBByAddr := (BBByAddr s)(Addr \<mapsto> length (Blocks s)),
              Blocks := Blocks s @
                [\<lparr>bbname = ''bb_'' @ utohexstr Addr,
                  body = [CallInst (NextId s) (IntrinsicDecl Intrinsic_trap []) [],
                          UnreachableInst]\<rparr>],
              NextId := Suc (NextId s)\<rparr>))"
  by (simp add: getOrCreateBasicBlock_def CreateCallAt_def thn_rules tail_rules appendInst_def
      split: option.splits)

lemma thn_getOrCreateBasicBlock:
  "thn (getOrCreateBasicBlock Addr) f s =
     (case BBByAddr s Addr of
        Some BB \<Rightarrow> f BB s
      | None \<Rightarrow>
          f (length (Blocks s))
            (s\<lparr>BBByAddr := (BBByAddr s)(Addr \<mapsto> length (Blocks s)),
              Blocks := Blocks s @
                [\<lparr>bbname = ''bb_'' @ utohexstr Addr,
                  body = [CallInst (NextId s) (IntrinsicDecl Intrinsic_trap []) [],
                          UnreachableInst]\<rparr>],
              NextId := Suc (NextId s)\<rparr>))"
  by (simp add: thn_def getOrCreateBasicBlock_eq split: option.splits)


lemma appendInst_fields:
  "Vals (appendInst bb i s) = Vals s"
  "NextId (appendInst bb i s) = NextId s"
  "Builder (appendInst bb i s) = Builder s"
  "TheBB (appendInst bb i s) = TheBB s"
  "CallBBs (appendInst bb i s) = CallBBs s"
  "BBByAddr (appendInst bb i s) = BBByAddr s"
  "ExitBB (appendInst bb i s) = ExitBB s"
  "Idx (appendInst bb i s) = Idx s"
  "ResEVT (appendInst bb i s) = ResEVT s"
  "CurrentInst (appendInst bb i s) = CurrentInst s"
  "DRSCalls (appendInst bb i s) = DRSCalls s"
  "TheMCBB (appendInst bb i s) = TheMCBB s"
  "Opcode (appendInst bb i s) = Opcode s"
  "length (Blocks (appendInst bb i s)) = length (Blocks s)"
  by (simp_all add: appendInst_def split: option.splits)

lemma appendInst_upd:
  "appendInst bb i (s\<lparr>Vals := v\<rparr>) = (appendInst bb i s)\<lparr>Vals := v\<rparr>"
  "appendInst bb i (s\<lparr>NextId := n\<rparr>) = (appendInst bb i s)\<lparr>NextId := n\<rparr>"
  "appendInst bb i (s\<lparr>Idx := k\<rparr>) = (appendInst bb i s)\<lparr>Idx := k\<rparr>"
  "appendInst bb i (s\<lparr>ResEVT := e\<rparr>) = (appendInst bb i s)\<lparr>ResEVT := e\<rparr>"
  "appendInst bb i (s\<lparr>Opcode := k\<rparr>) = (appendInst bb i s)\<lparr>Opcode := k\<rparr>"
  "appendInst bb i (s\<lparr>CurrentInst := c\<rparr>) = (appendInst bb i s)\<lparr>CurrentInst := c\<rparr>"
  "appendInst bb i (s\<lparr>DRSCalls := d\<rparr>) = (appendInst bb i s)\<lparr>DRSCalls := d\<rparr>"
  by (simp_all add: appendInst_def split: option.splits)

text \<open>The definitions that are sequences of the operations above.\<close>

lemmas seq_defs0 =
  emit_def emitVoid_def CreateCallAt_def CreateCall_def CreateUnreachable_def CreateBr_def
  CreateRetVoid_def CreateBinOp_def CreateCast_def SetInsertPoint_def
  NextVT_def getTypeForEVT_def getResType_def asIntegerType_def
  registerResult_def getRegOp_def getImmOp_def castConstantInt_def
  getReg_def setReg_def getRegAsInt_def insertBitsInValue_def notifyDRS_def insertBefore_def
  saveAllLocalRegs_def restoreLocalRegs_def CallInstAddr_def
  insertCallBB_def insertTranslateAt_def insertCall_def translateBinOp_def translateCastOp_def
  coercePointer_def CreateLoad_def translateLoad_def translateStore_def
  translateMulLoHi_def translateBRIND_def translateBR_def translateComplexPattern_def
  callComplexPattern_def translateMOV_CONSTANT_def
  lookupSemaIdx_def advancePC_def tryTranslateInst_def translateInst_def
  prepareBasicBlockForInsertion_def SwitchToBasicBlock_def SwitchToMCBasicBlock_def
  FinalizeBasicBlock_def createExternalTailCallBB_def DCFunction_def DCFunction_dtor_def

lemmas seq_defs = seq_defs0 [THEN fun_cong] seq_defs0 [THEN thn_unfold]

lemmas translateOpcode_eq =
  translateOpcode_def [THEN fun_cong] translateOpcode_def [THEN thn_unfold]

lemmas translateOpcodes_eq =
  translateOpcodes.simps [THEN fun_cong] translateOpcodes.simps [THEN thn_unfold]

lemma translateOpcodes_numeral0:
  "translateOpcodes (numeral k) E T =
     thn (Next E) (\<lambda>tok.
     thn (upd (\<lambda>s. s\<lparr>Opcode := tok\<rparr>)) (\<lambda>_.
     if semaOpcode E tok = END_OF_INSTRUCTION then ret True
     else thn (translateOpcode E T tok) (\<lambda>ok.
          if \<not> ok then ret False else translateOpcodes (pred_numeral k) E T)))"
  by (simp add: numeral_eq_Suc)

lemma translateOpcodes_One:
  "translateOpcodes 1 E T =
     thn (Next E) (\<lambda>tok.
     thn (upd (\<lambda>s. s\<lparr>Opcode := tok\<rparr>)) (\<lambda>_.
     if semaOpcode E tok = END_OF_INSTRUCTION then ret True
     else thn (translateOpcode E T tok) (\<lambda>ok.
          if \<not> ok then ret False else translateOpcodes 0 E T)))"
  unfolding One_nat_def by simp

lemmas translateOpcodes_numeral =
  translateOpcodes_numeral0 [THEN fun_cong] translateOpcodes_numeral0 [THEN thn_unfold]
  translateOpcodes_One [THEN fun_cong] translateOpcodes_One [THEN thn_unfold]

lemma demoEnv_fields:
  "EnableRegSetDiff (demoEnv d u) = d"
  "EnableInstAddrSave (demoEnv d u) = False"
  "TranslateUnknownToUndef (demoEnv d u) = u"
  "OpcodeToSemaIdx (demoEnv d u) = [0, 6, - 1, 12, 16, 22]"
  "SemanticsArray (demoEnv d u) =
        [1, 64, 0, 2, 0, 0,
         5, 64, 3, 3, 0, 0,
         4, 64, 7, 0,
         1, 64, 0, 3, 0, 0,
         5, 64, 1, 5, 64, 2, 6, 64, 64, 7, 0, 4, 7, 0, 5, 0]"
  "ConstantArray (demoEnv d u) = [8192]"
  "semaOpcode (demoEnv d u) = demoSemaOpcode"
  "simpleValueType (demoEnv d u) = demoValueType"
  "getProgramCounter (demoEnv d u) = 0"
  "getRegType (demoEnv d u) = (\<lambda>_. IntegerTy 64)"
  "getRegIntType (demoEnv d u) = (\<lambda>_. 64)"
  by (simp_all add: demoEnv_def)

lemma demoTarget_fields:
  "translateTargetInst demoTarget = ret False"
  "translateTargetOpcode demoTarget = (\<lambda>_. ret False)"
  "translateCustomOperand demoTarget = (\<lambda>_ _. ret None)"
  "translateImplicit demoTarget = (\<lambda>_. ret ())"
  "overrideComplexPattern demoTarget = None"
  by (simp_all add: demoTarget_def)

lemmas demo_rules =
  demoEnv_fields demoTarget_fields demoSemaOpcode_def demoValueType_def demoInst_def
  demoState_def init_def

lemmas eval_rules =
  seq_defs translateOpcode_eq thn_rules thn_getOrCreateBasicBlock tail_rules if_app
  translateOpcodes_numeral translateOpcodes_eq appendInst_def getOrCreateBasicBlock_eq
  list_update_append nth_append


section \<open>Preservation\<close>

lemma preservesI: "(\<And>s a s'. I s \<Longrightarrow> m s = Inr (a, s') \<Longrightarrow> I s') \<Longrightarrow> preserves I m"
  by (auto simp: preserves_def)

lemma preservesD: "preserves I m \<Longrightarrow> I s \<Longrightarrow> m s = Inr (a, s') \<Longrightarrow> I s'"
  by (auto simp: preserves_def)

lemma preserves_thn:
  "preserves I m \<Longrightarrow> (\<And>a. preserves I (f a)) \<Longrightarrow> preserves I (thn m f)"
  unfolding preserves_def thn_Inr_iff by blast

lemma preserves_readonly:
  "(\<And>s a s'. m s = Inr (a, s') \<Longrightarrow> s' = s) \<Longrightarrow> preserves I m"
  by (auto simp: preserves_def)

lemma preserves_ret: "preserves I (ret a)"
  by (rule preserves_readonly) (simp add: ret_def)

lemma preserves_fail: "preserves I (fail e)"
  by (simp add: preserves_def fail_def)

lemma preserves_gets: "preserves I (gets g)"
  by (rule preserves_readonly) (simp add: gets_def)

lemma preserves_assert: "preserves I (assert P)"
  by (rule preserves_readonly) (simp add: assert_def split: if_splits)

lemma preserves_if:
  "preserves I a \<Longrightarrow> preserves I b \<Longrightarrow> preserves I (if c then a else b)"
  by simp

lemma preserves_case_option:
  "preserves I a \<Longrightarrow> (\<And>v. preserves I (b v)) \<Longrightarrow>
   preserves I (case x of None \<Rightarrow> a | Some v \<Rightarrow> b v)"
  by (cases x) simp_all

lemma preserves_getOperand: "preserves I (getOperand i)"
  by (rule preserves_readonly) (auto simp: getOperand_def split: option.splits if_splits)

lemma preserves_getCurrentInst: "preserves I getCurrentInst"
  by (rule preserves_readonly) (auto simp: getCurrentInst_def split: option.splits)

lemma preserves_getTypeForEVT: "preserves I (getTypeForEVT e)"
  by (cases e) (simp_all add: getTypeForEVT_def preserves_ret preserves_fail)

lemma preserves_asIntegerType: "preserves I (asIntegerType t)"
  by (cases t) (simp_all add: asIntegerType_def preserves_ret preserves_fail)

lemma preserves_castConstantInt: "preserves I (castConstantInt v)"
  by (cases "asConstantInt v") (simp_all add: castConstantInt_def preserves_ret preserves_fail)

lemma preserves_getResType: "preserves I getResType"
  unfolding getResType_def by (intro preserves_thn preserves_gets preserves_getTypeForEVT)

lemma preserves_getRegOp: "preserves I (getRegOp i)"
  unfolding getRegOp_def
  by (intro preserves_thn preserves_getOperand)
     (simp add: preserves_ret preserves_fail split: mcoperand.splits)

lemma preserves_getImmOp: "preserves I (getImmOp i)"
  unfolding getImmOp_def
  by (intro preserves_thn preserves_getOperand)
     (simp add: preserves_ret preserves_fail split: mcoperand.splits)

lemma preserves_lookupSemaIdx: "preserves I (lookupSemaIdx E opc)"
  by (simp add: lookupSemaIdx_def preserves_ret preserves_fail)

section \<open>Stable properties\<close>

lemma stableD:
  assumes "step_stable I" "I s"
  shows "I (appendInst (Builder s) i s)" "I (s\<lparr>NextId := n\<rparr>)" "I (s\<lparr>Vals := v\<rparr>)"
    "I (s\<lparr>Idx := k\<rparr>)" "I (s\<lparr>ResEVT := e\<rparr>)" "I (s\<lparr>Opcode := k\<rparr>)"
    "I (s\<lparr>CurrentInst := c\<rparr>)" "I (s\<lparr>DRSCalls := d\<rparr>)"
  using assms unfolding step_stable_def by blast+

lemma stable_emit: "step_stable I \<Longrightarrow> preserves I (emit mk t)"
proof (rule preservesI)
  fix s a s' assume "step_stable I" "I s" "emit mk t s = Inr (a, s')"
  then show "I s'"
    using stableD(2) [OF \<open>step_stable I\<close> stableD(1) [OF \<open>step_stable I\<close> \<open>I s\<close>]]
    by (simp add: emit_def thn_gets emitAt_def) blast
qed

lemma stable_emitVoid: "step_stable I \<Longrightarrow> preserves I (emitVoid i)"
proof (rule preservesI)
  fix s a s' assume "step_stable I" "I s" "emitVoid i s = Inr (a, s')"
  then show "I s'"
    using stableD(1) [OF \<open>step_stable I\<close> \<open>I s\<close>]
    by (simp add: emitVoid_def thn_gets emitVoidAt_def) blast
qed

lemma stable_CreateCall: "step_stable I \<Longrightarrow> preserves I (CreateCall f args)"
proof (rule preservesI)
  fix s a s' assume "step_stable I" "I s" "CreateCall f args s = Inr (a, s')"
  then show "I s'"
    using stableD(2) [OF \<open>step_stable I\<close> stableD(1) [OF \<open>step_stable I\<close> \<open>I s\<close>]]
    by (simp add: CreateCall_def CreateCallAt_def thn_gets emitAt_def) blast
qed

lemma stable_Next: "step_stable I \<Longrightarrow> preserves I (Next E)"
  by (rule preservesI) (auto simp: Next_def split: if_splits intro: stableD)

lemma stable_getNextOperand: "step_stable I \<Longrightarrow> preserves I getNextOperand"
  by (rule preservesI) (auto simp: getNextOperand_def split: list.splits intro: stableD)

lemma stable_registerResult: "step_stable I \<Longrightarrow> preserves I (registerResult v)"
  by (rule preservesI) (auto simp: registerResult_def upd_def intro: stableD)

lemma stable_notifyDRS: "step_stable I \<Longrightarrow> preserves I (notifyDRS c)"
  by (rule preservesI) (auto simp: notifyDRS_def upd_def intro: stableD)

lemma stable_upd:
  assumes "step_stable I"
  shows "preserves I (upd (\<lambda>s. s\<lparr>ResEVT := e\<rparr>))" "preserves I (upd (\<lambda>s. s\<lparr>Opcode := k\<rparr>))"
    "preserves I (upd (\<lambda>s. s\<lparr>Idx := k\<rparr>))" "preserves I (upd (\<lambda>s. s\<lparr>Vals := v\<rparr>))"
    "preserves I (upd (\<lambda>s. s\<lparr>CurrentInst := c\<rparr>))"
  using assms by (auto simp: preserves_def upd_def intro: stableD)

lemma stable_getOrCreateBasicBlock: "step_stable I \<Longrightarrow> preserves I (getOrCreateBasicBlock a)"
  unfolding step_stable_def by blast

lemma stable_insertCallBB: "step_stable I \<Longrightarrow> preserves I (insertCallBB v)"
  unfolding step_stable_def by blast

lemma stable_NextVT: "step_stable I \<Longrightarrow> preserves I (NextVT E)"
  unfolding NextVT_def by (intro preserves_thn stable_Next preserves_ret)

lemma stable_Create:
  assumes "step_stable I"
  shows "preserves I (CreateBinOp opc l r)" "preserves I (CreateCast cop v t)"
    "preserves I (CreateLoad Ptr align)" "preserves I (getReg E n)"
    "preserves I (getRegAsInt E n)" "preserves I (insertBitsInValue whole narrow)"
    "preserves I (setReg n v)" "preserves I (CreateBr dest)" "preserves I CreateUnreachable"
    "preserves I CreateRetVoid"
  unfolding CreateBinOp_def CreateCast_def CreateLoad_def getReg_def getRegAsInt_def
    insertBitsInValue_def setReg_def CreateBr_def CreateUnreachable_def CreateRetVoid_def
  by (rule stable_emit [OF assms] stable_emitVoid [OF assms])+


lemmas pres_basic =
  preserves_thn preserves_ret preserves_fail preserves_gets preserves_assert preserves_if
  preserves_case_option preserves_getTypeForEVT preserves_asIntegerType
  preserves_castConstantInt preserves_getResType preserves_getRegOp preserves_getImmOp
  preserves_lookupSemaIdx preserves_getCurrentInst

lemmas pres_stable =
  stable_Create stable_emit stable_emitVoid stable_CreateCall stable_Next stable_NextVT
  stable_getNextOperand stable_registerResult stable_notifyDRS stable_upd
  stable_getOrCreateBasicBlock stable_insertCallBB

lemma stable_translateBinOp: "step_stable I \<Longrightarrow> preserves I (translateBinOp Opc)"
  unfolding translateBinOp_def by (intro pres_basic pres_stable) 

lemma stable_translateCastOp: "step_stable I \<Longrightarrow> preserves I (translateCastOp Opc)"
  unfolding translateCastOp_def by (intro pres_basic pres_stable)

lemma stable_coercePointer: "step_stable I \<Longrightarrow> preserves I (coercePointer p t)"
  unfolding coercePointer_def by (intro pres_basic pres_stable)

lemma stable_translateLoad: "step_stable I \<Longrightarrow> preserves I translateLoad"
  unfolding translateLoad_def by (intro pres_basic pres_stable stable_coercePointer)

lemma stable_translateStore: "step_stable I \<Longrightarrow> preserves I translateStore"
  unfolding translateStore_def by (intro pres_basic pres_stable stable_coercePointer)

lemma stable_translateExtLoad: "step_stable I \<Longrightarrow> preserves I (translateExtLoad t x)"
  unfolding translateExtLoad_def CreateBitOrPointerCast_def by (intro pres_basic pres_stable)

lemma stable_translatePredicate: "step_stable I \<Longrightarrow> preserves I (translatePredicate p)"
  by (cases p)
     (simp_all add: pres_basic stable_translateLoad stable_translateStore
        stable_translateExtLoad stable_translateBinOp)

lemma stable_translateFSQRT: "step_stable I \<Longrightarrow> preserves I translateFSQRT"
  unfolding translateFSQRT_def by (intro pres_basic pres_stable)

lemma stable_translateROTL: "step_stable I \<Longrightarrow> preserves I translateROTL"
  unfolding translateROTL_def by (intro pres_basic pres_stable)

lemma stable_translateInsertVectorElt: "step_stable I \<Longrightarrow> preserves I translateInsertVectorElt"
  unfolding translateInsertVectorElt_def by (intro pres_basic pres_stable)

lemma stable_translateExtractVectorElt: "step_stable I \<Longrightarrow> preserves I translateExtractVectorElt"
  unfolding translateExtractVectorElt_def
  by (intro pres_basic pres_stable) (auto simp: preserves_ret preserves_fail split: ty.split)

lemma stable_translateMulLoHi: "step_stable I \<Longrightarrow> preserves I (translateMulLoHi E Ext)"
  unfolding translateMulLoHi_def by (intro pres_basic pres_stable)

lemma stable_insertTranslateAt: "step_stable I \<Longrightarrow> preserves I (insertTranslateAt v)"
  unfolding insertTranslateAt_def by (intro pres_basic pres_stable)

lemma stable_insertCall: "step_stable I \<Longrightarrow> preserves I (insertCall v)"
  unfolding insertCall_def by (intro pres_basic pres_stable stable_insertTranslateAt)

lemma stable_translateBRIND: "step_stable I \<Longrightarrow> preserves I (translateBRIND E)"
  unfolding translateBRIND_def by (intro pres_basic pres_stable stable_insertCall)

lemma stable_translateBR: "step_stable I \<Longrightarrow> preserves I (translateBR E)"
  unfolding translateBR_def by (intro pres_basic pres_stable)

lemma stable_translatePUT_RC: "step_stable I \<Longrightarrow> preserves I (translatePUT_RC E)"
  unfolding translatePUT_RC_def by (intro pres_basic pres_stable)

lemma stable_translateGET_RC: "step_stable I \<Longrightarrow> preserves I (translateGET_RC E)"
  unfolding translateGET_RC_def by (intro pres_basic pres_stable)

lemma stable_translateMOV_CONSTANT: "step_stable I \<Longrightarrow> preserves I (translateMOV_CONSTANT E)"
  unfolding translateMOV_CONSTANT_def by (intro pres_basic pres_stable)

lemma stable_translateATOMIC_FENCE: "step_stable I \<Longrightarrow> preserves I (translateATOMIC_FENCE E)"
  unfolding translateATOMIC_FENCE_def by (intro pres_basic pres_stable)

lemma hooks_callComplexPattern:
  "hooks_preserve I T \<Longrightarrow> preserves I (callComplexPattern T p)"
  unfolding callComplexPattern_def translateComplexPattern_def hooks_preserve_def
  by (auto simp: preserves_ret split: option.splits)

lemmas pres_cases =
  stable_translateBinOp stable_translateCastOp stable_translateLoad stable_translateStore
  stable_translatePredicate stable_translateFSQRT stable_translateROTL
  stable_translateInsertVectorElt stable_translateExtractVectorElt stable_translateMulLoHi
  stable_translateBRIND stable_translateBR stable_translatePUT_RC stable_translateGET_RC
  stable_translateMOV_CONSTANT stable_translateATOMIC_FENCE hooks_callComplexPattern

lemma hooksD:
  assumes "hooks_preserve I T"
  shows "preserves I (translateTargetInst T)" "preserves I (translateTargetOpcode T opc)"
    "preserves I (translateCustomOperand T ty n)" "preserves I (translateImplicit T r)"
  using assms unfolding hooks_preserve_def by blast+

lemma stable_translateOpcode:
  assumes "step_stable I" "hooks_preserve I T"
  shows "preserves I (translateOpcode E T Opc)"
  unfolding translateOpcode_def
  apply (intro preserves_thn stable_NextVT [OF assms(1)] stable_upd [OF assms(1)])
  apply (cases "semaOpcode E Opc")
  apply (simp_all only: semaop.case)
  apply (intro pres_basic pres_stable pres_cases hooksD assms | rule assms)+
  done


lemma stable_translateOpcodes:
  assumes "step_stable I" "hooks_preserve I T"
  shows "preserves I (translateOpcodes n E T)"
proof (induction n)
  case 0
  show ?case by (simp add: preserves_fail)
next
  case (Suc n)
  show ?case
    unfolding translateOpcodes.simps
    by (intro pres_basic pres_stable stable_translateOpcode assms Suc)
qed

lemma stable_advancePC: "step_stable I \<Longrightarrow> preserves I (advancePC E In)"
  unfolding advancePC_def by (intro pres_basic pres_stable)

lemma stable_tryTranslateInst:
  assumes "step_stable I" "hooks_preserve I T"
  shows "preserves I (tryTranslateInst n E T)"
  unfolding tryTranslateInst_def
  by (intro pres_basic pres_stable stable_advancePC stable_translateOpcodes hooksD assms)

lemma stable_translateInst:
  assumes "step_stable I" "hooks_preserve I T"
  shows "preserves I (translateInst n E T In)"
  unfolding translateInst_def
  by (intro pres_basic pres_stable stable_tryTranslateInst assms)

section \<open>The function only grows\<close>

lemma grows_refl: "grows s s"
  by (simp add: grows_def)

lemma grows_Blocks: "grows s0 s \<Longrightarrow> Blocks s' = Blocks s \<Longrightarrow> grows s0 s'"
  by (simp add: grows_def)

lemma grows_appendInst:
  assumes "grows s0 s"
  shows "grows s0 (appendInst bb i s)"
proof (cases bb)
  case None
  with assms show ?thesis by (simp add: appendInst_def)
next
  case (Some a)
  have "prefix (body (Blocks s0 ! b))
          (body ((Blocks s)[a := (Blocks s ! a)\<lparr>body := body (Blocks s ! a) @ [i]\<rparr>] ! b))"
    if "b < length (Blocks s0)" for b
  proof -
    from assms that have p: "prefix (body (Blocks s0 ! b)) (body (Blocks s ! b))"
      and l: "b < length (Blocks s)"
      by (auto simp: grows_def)
    show ?thesis
    proof (cases "b = a")
      case True
      with p l show ?thesis by (simp add: prefix_def) (metis append_assoc)
    next
      case False
      with p show ?thesis by simp
    qed
  qed
  with assms Some show ?thesis
    by (simp add: grows_def appendInst_def)
qed

lemma grows_new_block: "grows s0 s \<Longrightarrow> Blocks s' = Blocks s @ bs \<Longrightarrow> grows s0 s'"
  by (auto simp: grows_def nth_append)

lemma grows_emitAt: "preserves (grows s0) (emitAt bb mk t)"
  by (rule preservesI) (auto simp: emitAt_def intro: grows_Blocks [OF grows_appendInst])

lemma grows_emitVoidAt: "preserves (grows s0) (emitVoidAt bb i)"
  by (rule preservesI) (auto simp: emitVoidAt_def intro: grows_appendInst)

lemma grows_BasicBlock_Create: "preserves (grows s0) (BasicBlock_Create nm)"
  by (rule preservesI) (auto simp: BasicBlock_Create_def intro: grows_new_block)

lemma grows_upd: "(\<And>s. Blocks (f s) = Blocks s) \<Longrightarrow> preserves (grows s0) (upd f)"
  by (rule preservesI) (auto simp: upd_def intro: grows_Blocks)

lemma grows_getTheBB: "preserves I getTheBB"
  by (rule preserves_readonly) (auto simp: getTheBB_def split: option.splits)

lemma grows_getName: "preserves I (getName b)"
  by (rule preserves_readonly) (auto simp: getName_def split: if_splits)

lemma grows_getOrCreateBasicBlock: "preserves (grows s0) (getOrCreateBasicBlock a)"
  by (rule preservesI)
     (auto simp: getOrCreateBasicBlock_eq split: option.splits intro: grows_new_block)

lemma grows_emitVoid: "preserves (grows s0) (emitVoid i)"
  unfolding emitVoid_def by (intro preserves_thn preserves_gets grows_emitVoidAt)

lemma grows_insertCallBB: "preserves (grows s0) (insertCallBB v)"
  unfolding insertCallBB_def CreateCallAt_def CreateBr_def CallInstAddr_def notifyDRS_def
    SetInsertPoint_def
  by (intro preserves_thn preserves_ret preserves_gets preserves_assert grows_getTheBB
      grows_getName grows_BasicBlock_Create grows_emitAt grows_emitVoid grows_emitVoidAt
      grows_upd) simp_all

lemma step_stable_grows: "step_stable (grows s0)"
  unfolding step_stable_def
  by (auto intro: grows_appendInst grows_Blocks grows_getOrCreateBasicBlock grows_insertCallBB)


section \<open>Call blocks\<close>

lemma insertCallBB_eq:
  "insertCallBB v s =
     (case TheBB s of
        None \<Rightarrow> Inl NullPointer
      | Some bb \<Rightarrow>
          if bb < length (Blocks s) then
            if Builder s = Some bb then
              Inr (length (Blocks s),
                s\<lparr>Blocks := (Blocks s)[bb := (Blocks s ! bb)\<lparr>body := body (Blocks s ! bb) @
                                [BranchInst (length (Blocks s))]\<rparr>] @
                    [\<lparr>bbname = bbname (Blocks s ! bb) @ ''_call'',
                      body = [CallInst (NextId s) v [RegSetArg],
                              BranchInst (Suc (length (Blocks s)))]\<rparr>,
                     \<lparr>bbname = takeWhile (\<lambda>c. c \<noteq> CHR ''_'' \<and> c \<noteq> CHR ''c'')
                                 (bbname (Blocks s ! bb)) @ ''_c'' @
                               (case CurrentInst s of None \<Rightarrow> []
                                | Some I \<Rightarrow> utohexstr (Address I)),
                      body = []\<rparr>],
                  CallBBs := CallBBs s @ [length (Blocks s)],
                  TheBB := Some (Suc (length (Blocks s))),
                  Builder := Some (Suc (length (Blocks s))),
                  NextId := Suc (NextId s),
                  DRSCalls := DRS_SwitchToBasicBlock (Suc (length (Blocks s))) #
                              DRS_FinalizeBasicBlock # DRSCalls s\<rparr>)
            else Inl AssertionFailed
          else Inl NullPointer)"
  by (cases "Builder s")
     (auto simp: seq_defs thn_rules tail_rules appendInst_def nth_append list_update_append
        split: option.splits)

lemma isCallBlockE:
  assumes "isCallBlock xs"
  obtains i f args d where "xs = [CallInst i f args, BranchInst d]"
  using assms by (auto elim: isCallBlock.elims)

lemma callInv_appendInst_at:
  assumes "callInv s" "\<forall>b. bb = Some b \<longrightarrow> b \<notin> set (CallBBs s)"
  shows "callInv (appendInst bb i s)"
proof (cases bb)
  case None
  with assms show ?thesis by (simp add: appendInst_def)
next
  case (Some a)
  with assms have "a \<notin> set (CallBBs s)" by simp
  then have "\<forall>b \<in> set (CallBBs s). b \<noteq> a" by blast
  with assms(1) Some show ?thesis
    unfolding callInv_def appendInst_def by (auto simp: nth_list_update)
qed

lemma callInv_appendInst: "callInv s \<Longrightarrow> callInv (appendInst (Builder s) i s)"
  by (rule callInv_appendInst_at) (auto simp: callInv_def)

lemma callInv_scratch:
  assumes "callInv s"
  shows "callInv (s\<lparr>NextId := n\<rparr>)" "callInv (s\<lparr>Vals := v\<rparr>)" "callInv (s\<lparr>Idx := k\<rparr>)"
    "callInv (s\<lparr>ResEVT := e\<rparr>)" "callInv (s\<lparr>Opcode := k\<rparr>)"
    "callInv (s\<lparr>CurrentInst := c\<rparr>)" "callInv (s\<lparr>DRSCalls := d\<rparr>)"
    "callInv (s\<lparr>TheMCBB := m\<rparr>)"
  using assms by (simp_all add: callInv_def)

lemma callInv_getOrCreateBasicBlock: "preserves callInv (getOrCreateBasicBlock a)"
proof (rule preservesI)
  fix s b s' assume inv: "callInv s" and r: "getOrCreateBasicBlock a s = Inr (b, s')"
  show "callInv s'"
  proof (cases "BBByAddr s a")
    case (Some x)
    with r inv show ?thesis by (simp add: getOrCreateBasicBlock_eq)
  next
    case None
    with r have s': "s' = s\<lparr>BBByAddr := (BBByAddr s)(a \<mapsto> length (Blocks s)),
              Blocks := Blocks s @
                [\<lparr>bbname = ''bb_'' @ utohexstr a,
                  body = [CallInst (NextId s) (IntrinsicDecl Intrinsic_trap []) [],
                          UnreachableInst]\<rparr>],
              NextId := Suc (NextId s)\<rparr>"
      by (auto simp: getOrCreateBasicBlock_eq)
    from inv show ?thesis
      unfolding s' callInv_def
      by (auto simp: nth_append less_Suc_eq)
  qed
qed

lemma callInv_insertCallBB: "preserves callInv (insertCallBB v)"
proof (rule preservesI)
  fix s b s' assume inv: "callInv s" and r: "insertCallBB v s = Inr (b, s')"
  from r obtain bb where bb: "TheBB s = Some bb" "bb < length (Blocks s)" "Builder s = Some bb"
    by (auto simp: insertCallBB_eq split: option.splits if_splits)
  from inv bb have nc: "\<forall>b \<in> set (CallBBs s). b \<noteq> bb"
    by (auto simp: callInv_def)
  from r bb have s': "s' = s\<lparr>Blocks := (Blocks s)[bb := (Blocks s ! bb)\<lparr>body := body (Blocks s ! bb) @
                                [BranchInst (length (Blocks s))]\<rparr>] @
                    [\<lparr>bbname = bbname (Blocks s ! bb) @ ''_call'',
                      body = [CallInst (NextId s) v [RegSetArg],
                              BranchInst (Suc (length (Blocks s)))]\<rparr>,
                     \<lparr>bbname = takeWhile (\<lambda>c. c \<noteq> CHR ''_'' \<and> c \<noteq> CHR ''c'')
                                 (bbname (Blocks s ! bb)) @ ''_c'' @
                               (case CurrentInst s of None \<Rightarrow> []
                                | Some I \<Rightarrow> utohexstr (Address I)),
                      body = []\<rparr>],
                  CallBBs := CallBBs s @ [length (Blocks s)],
                  TheBB := Some (Suc (length (Blocks s))),
                  Builder := Some (Suc (length (Blocks s))),
                  NextId := Suc (NextId s),
                  DRSCalls := DRS_SwitchToBasicBlock (Suc (length (Blocks s))) #
                              DRS_FinalizeBasicBlock # DRSCalls s\<rparr>"
    by (auto simp: insertCallBB_eq)
  from inv nc show "callInv s'"
    unfolding s' callInv_def
    by (auto simp: nth_append nth_list_update less_Suc_eq)
qed

lemma step_stable_callInv: "step_stable callInv"
  unfolding step_stable_def
  by (auto intro: callInv_appendInst callInv_scratch callInv_getOrCreateBasicBlock
      callInv_insertCallBB)


lemma getOrCreateBasicBlock_post:
  assumes "getOrCreateBasicBlock a s = Inr (BB, s1)"
  shows "BBByAddr s1 a = Some BB" "TheBB s1 = TheBB s" "Builder s1 = Builder s"
    "CallBBs s1 = CallBBs s"
  using assms by (auto simp: getOrCreateBasicBlock_eq split: option.splits)

lemma callInv_SwitchToBasicBlock: "preserves callInv (SwitchToBasicBlock E a)"
proof (rule preservesI)
  fix s u s' assume inv: "callInv s" and r: "SwitchToBasicBlock E a s = Inr (u, s')"
  from r obtain BB s1 where g: "getOrCreateBasicBlock a s = Inr (BB, s1)"
    and rest: "thn (upd (\<lambda>s. s\<lparr>TheBB := Some BB\<rparr>)) (\<lambda>_.
       thn (prepareBasicBlockForInsertion BB) (\<lambda>_.
       thn (SetInsertPoint BB) (\<lambda>_.
       thn (notifyDRS (DRS_SwitchToBasicBlock BB)) (\<lambda>_.
       setReg (getProgramCounter E)
         (ConstantInt (getRegType E (getProgramCounter E)) a))))) s1 = Inr (u, s')"
    unfolding SwitchToBasicBlock_def thn_Inr_iff by blast
  have inv1: "callInv s1"
    by (rule preservesD [OF callInv_getOrCreateBasicBlock inv g])
  with getOrCreateBasicBlock_post(1) [OF g] have nc: "\<forall>b \<in> set (CallBBs s1). b \<noteq> BB"
    by (auto simp: callInv_def)
  from rest have s': "s' = s1\<lparr>
      Blocks := (Blocks s1)[BB := (Blocks s1 ! BB)\<lparr>body :=
         [SetReg (getProgramCounter E) (ConstantInt (getRegType E (getProgramCounter E)) a)]\<rparr>],
      TheBB := Some BB, Builder := Some BB,
      DRSCalls := DRS_SwitchToBasicBlock BB # DRSCalls s1\<rparr>"
    by (auto simp: seq_defs thn_rules tail_rules appendInst_def split: if_splits)
       (auto simp: length_Suc_conv numeral_2_eq_2)
  from inv1 nc show "callInv s'"
    unfolding s' callInv_def by (auto simp: nth_list_update)
qed

lemma callInv_SwitchToMCBasicBlock: "preserves callInv (SwitchToMCBasicBlock E m)"
  unfolding SwitchToMCBasicBlock_def
  by (intro preserves_thn callInv_SwitchToBasicBlock)
     (auto simp: preserves_def upd_def intro: callInv_scratch)

lemma callInv_createExternalTailCallBB: "preserves callInv (createExternalTailCallBB E a)"
  unfolding createExternalTailCallBB_def
  by (intro preserves_thn callInv_SwitchToBasicBlock callInv_insertCallBB
      stable_Create [OF step_stable_callInv])

lemma callInv_FinalizeBasicBlock: "preserves callInv FinalizeBasicBlock"
proof (rule preservesI)
  fix s u s' assume inv: "callInv s" and r: "FinalizeBasicBlock s = Inr (u, s')"
  from r obtain BB sa t sb v s2
    where a: "getTheBB s = Inr (BB, sa)"
      and b: "getTerminator BB sa = Inr (t, sb)"
      and c: "(case t of
                 None \<Rightarrow>
                   thn getBasicBlockEndAddress (\<lambda>a.
                   thn (getOrCreateBasicBlock a) (\<lambda>dest.
                   emitVoidAt (Some BB) (BranchInst dest)))
               | Some _ \<Rightarrow> ret ()) sb = Inr (v, s2)"
      and d: "thn (notifyDRS DRS_FinalizeBasicBlock) (\<lambda>_.
              thn (upd (\<lambda>s. s\<lparr>TheBB := None\<rparr>)) (\<lambda>_.
              upd (\<lambda>s. s\<lparr>TheMCBB := None\<rparr>))) s2 = Inr (u, s')"
    unfolding FinalizeBasicBlock_def thn_Inr_iff by blast
  from a have bb: "TheBB s = Some BB" and sa: "sa = s"
    by (auto simp: getTheBB_def split: option.splits)
  from b have sb: "sb = s"
    unfolding sa by (auto simp: getTerminator_def split: if_splits)
  have "callInv s2"
  proof (cases t)
    case (Some x)
    with c inv show ?thesis by (simp add: ret_def sb)
  next
    case None
    with c obtain a dest s3 where g: "getOrCreateBasicBlock a s = Inr (dest, s3)"
      and e: "s2 = appendInst (Some BB) (BranchInst dest) s3"
      unfolding sb
      by (auto simp: thn_getBasicBlockEndAddress thn_Inr_iff emitVoidAt_def
          split: option.splits)
    have i3: "callInv s3"
      by (rule preservesD [OF callInv_getOrCreateBasicBlock inv g])
    from getOrCreateBasicBlock_post(2) [OF g] bb have "TheBB s3 = Some BB" by simp
    with i3 have "\<forall>b. Some BB = Some b \<longrightarrow> b \<notin> set (CallBBs s3)"
      by (auto simp: callInv_def)
    then show ?thesis
      unfolding e by (rule callInv_appendInst_at [OF i3])
  qed
  moreover from d have "s' = s2\<lparr>DRSCalls := DRS_FinalizeBasicBlock # DRSCalls s2,
      TheBB := None, TheMCBB := None\<rparr>"
    by (simp add: notifyDRS_def thn_upd upd_def)
  ultimately show "callInv s'"
    by (auto simp: callInv_def)
qed


lemma DCFunction_eq:
  assumes "FnBlocks MCF \<noteq> []"
  shows "DCFunction E MCF init =
     Inr ((), init\<lparr>
       BBByAddr := [FnStartAddr MCF \<mapsto> (if EnableRegSetDiff E then Suc (Suc (Suc 0)) else Suc (Suc 0))],
       Blocks :=
         (if EnableRegSetDiff E then
           [\<lparr>bbname = ''entry_fn_'' @ utohexstr (FnStartAddr MCF),
             body = [AllocaInst 0 RegSetTy, LoadInst (Suc 0) RegSetArg 0,
                     StoreInst (Inst (Suc 0) RegSetTy) (Inst 0 (PointerTy RegSetTy)) 0 False,
                     BranchInst (Suc (Suc (Suc 0)))]\<rparr>,
            \<lparr>bbname = ''exit_fn_'' @ utohexstr (FnStartAddr MCF), body = [BranchInst (Suc (Suc 0))]\<rparr>,
            \<lparr>bbname = ''diff_exit_fn_'' @ utohexstr (FnStartAddr MCF),
             body = [CastInst (Suc (Suc 0)) IntToPtr (ConstantInt (IntegerTy 64) (FnStartAddr MCF))
                       (PointerTy (IntegerTy 8)),
                     CallInst (Suc (Suc (Suc 0))) RegSetDiffFunction
                       [Inst (Suc (Suc 0)) (PointerTy (IntegerTy 8)), Inst 0 (PointerTy RegSetTy),
                        RegSetArg],
                     ReturnInst]\<rparr>,
            \<lparr>bbname = ''bb_'' @ utohexstr (FnStartAddr MCF),
             body = [CallInst (Suc (Suc (Suc (Suc 0)))) (IntrinsicDecl Intrinsic_trap []) [],
                     UnreachableInst]\<rparr>]
          else
           [\<lparr>bbname = ''entry_fn_'' @ utohexstr (FnStartAddr MCF), body = [BranchInst (Suc (Suc 0))]\<rparr>,
            \<lparr>bbname = ''exit_fn_'' @ utohexstr (FnStartAddr MCF), body = [ReturnInst]\<rparr>,
            \<lparr>bbname = ''bb_'' @ utohexstr (FnStartAddr MCF),
             body = [CallInst 0 (IntrinsicDecl Intrinsic_trap []) [], UnreachableInst]\<rparr>]),
       ExitBB := Suc 0, TheBB := Some 0, Builder := Some 0,
       NextId := (if EnableRegSetDiff E then Suc (Suc (Suc (Suc (Suc 0)))) else Suc 0)\<rparr>)"
  using assms
  by (simp add: eval_rules init_def)

lemma DCFunction_empty: "FnBlocks MCF = [] \<Longrightarrow> DCFunction E MCF s = Inl AssertionFailed"
  by (simp add: DCFunction_def [THEN fun_cong] thn_assert)

lemma callInv_DCFunction:
  assumes "DCFunction E MCF init = Inr ((), s)"
  shows "callInv s"
proof (cases "FnBlocks MCF = []")
  case True
  with assms show ?thesis by (simp add: DCFunction_empty)
next
  case False
  from assms show ?thesis
    unfolding DCFunction_eq [OF False]
    by (auto simp: callInv_def init_def split: if_splits)
qed

lemma reachable_callInv:
  assumes hooks: "hooks_preserve callInv T" and r: "reachable E T s"
  shows "callInv s"
  using r
proof induction
  case (constructed MCF s)
  then show ?case by (rule callInv_DCFunction)
next
  case (switched s MCBB s')
  then show ?case by (blast intro: preservesD [OF callInv_SwitchToMCBasicBlock])
next
  case (translated s fuel I ok s')
  then show ?case
    by (blast intro: preservesD [OF stable_translateInst [OF step_stable_callInv hooks]])
next
  case (finalized s s')
  then show ?case by (blast intro: preservesD [OF callInv_FinalizeBasicBlock])
next
  case (tail_called s Addr s')
  then show ?case by (blast intro: preservesD [OF callInv_createExternalTailCallBB])
qed

lemma wrapCallBBs_ok:
  assumes "distinct bs"
    and "\<forall>b \<in> set bs. b < length (Blocks s) \<and> isCallBlock (body (Blocks s ! b))"
  shows "\<exists>bs'. wrapCallBBs bs s = Inr ((), s\<lparr>Blocks := bs'\<rparr>)
     \<and> length bs' = length (Blocks s)
     \<and> (\<forall>b < length (Blocks s).
          bs' ! b = (if b \<in> set bs
                     then (Blocks s ! b)\<lparr>body := [SaveAllLocalRegs, body (Blocks s ! b) ! 0,
                                                RestoreLocalRegs, body (Blocks s ! b) ! 1]\<rparr>
                     else Blocks s ! b))"
  using assms
proof (induction bs arbitrary: s)
  case Nil
  show ?case
    by (rule exI [of _ "Blocks s"]) (simp add: ret_def)
next
  case (Cons b rest)
  let ?blk = "(Blocks s ! b)\<lparr>body := [SaveAllLocalRegs, body (Blocks s ! b) ! 0,
                                     RestoreLocalRegs, body (Blocks s ! b) ! 1]\<rparr>"
  let ?s1 = "s\<lparr>Blocks := (Blocks s)[b := ?blk]\<rparr>"
  from Cons.prems have b: "b < length (Blocks s)" "isCallBlock (body (Blocks s ! b))"
    and nb: "\<forall>x \<in> set rest. x \<noteq> b" and d: "distinct rest"
    by auto
  from b(2) obtain i f args t where body: "body (Blocks s ! b) = [CallInst i f args, BranchInst t]"
    by (rule isCallBlockE)
  have step: "wrapCallBBs (b # rest) s = wrapCallBBs rest ?s1"
    using b(1) body
    by (simp add: thn_assert saveAllLocalRegs_def [THEN thn_unfold]
        restoreLocalRegs_def [THEN thn_unfold] insertBefore_def [THEN thn_unfold] thn_upd)
  have pre: "\<forall>x \<in> set rest. x < length (Blocks ?s1) \<and> isCallBlock (body (Blocks ?s1 ! x))"
    using Cons.prems nb by (auto simp: nth_list_update)
  from Cons.IH [OF d pre] obtain bs' where
    w: "wrapCallBBs rest ?s1 = Inr ((), ?s1\<lparr>Blocks := bs'\<rparr>)"
    and l: "length bs' = length (Blocks ?s1)"
    and n: "\<forall>x < length (Blocks ?s1).
          bs' ! x = (if x \<in> set rest
                     then (Blocks ?s1 ! x)\<lparr>body := [SaveAllLocalRegs, body (Blocks ?s1 ! x) ! 0,
                                                RestoreLocalRegs, body (Blocks ?s1 ! x) ! 1]\<rparr>
                     else Blocks ?s1 ! x)"
    by blast
  show ?case
  proof (intro exI [of _ bs'] conjI allI impI)
    show "wrapCallBBs (b # rest) s = Inr ((), s\<lparr>Blocks := bs'\<rparr>)"
      using w unfolding step by simp
    show "length bs' = length (Blocks s)"
      using l by simp
    fix x assume "x < length (Blocks s)"
    with n nb show "bs' ! x = (if x \<in> set (b # rest)
                     then (Blocks s ! x)\<lparr>body := [SaveAllLocalRegs, body (Blocks s ! x) ! 0,
                                                RestoreLocalRegs, body (Blocks s ! x) ! 1]\<rparr>
                     else Blocks s ! x)"
      by (cases "x = b") (auto simp: nth_list_update)
  qed
qed



lemma callsTranslateAt_nth:
  "callsTranslateAt bs \<longleftrightarrow> (\<exists>i < length bs. list_ex isTranslateAtCall (body (bs ! i)))"
  unfolding callsTranslateAt_def list_ex_iff [of _ bs] by (metis in_set_conv_nth)

lemma callsTranslateAt_append_body:
  assumes "bb < length bs"
  shows "callsTranslateAt (bs[bb := (bs ! bb)\<lparr>body := body (bs ! bb) @ is\<rparr>]) \<longleftrightarrow>
         callsTranslateAt bs \<or> list_ex isTranslateAtCall is"
  unfolding callsTranslateAt_nth
  using assms by (auto simp: nth_list_update list_ex_iff split: if_splits)

lemma callsTranslateAt_append:
  "callsTranslateAt (bs @ cs) \<longleftrightarrow> callsTranslateAt bs \<or> callsTranslateAt cs"
  by (auto simp: callsTranslateAt_def list_ex_iff)








lemma translateBRIND_eq:
  assumes vals: "Vals s = v # rest"
    and bb: "TheBB s = Some bb" "Builder s = Some bb" "bb < length (Blocks s)"
  shows "translateBRIND E s =
     Inr ((), s\<lparr>
       Blocks := (Blocks s)[bb := (Blocks s ! bb)\<lparr>body := body (Blocks s ! bb) @
           SetReg (getProgramCounter E) v #
           (case asConstantInt v of
              Some t \<Rightarrow> []
            | None \<Rightarrow>
                [CastInst (NextId s) IntToPtr v (PointerTy (IntegerTy 8)),
                 CallInst (Suc (NextId s)) (IntrinsicDecl Intrinsic_dc_translate_at [])
                   [Inst (NextId s) (PointerTy (IntegerTy 8))],
                 CastInst (Suc (Suc (NextId s))) BitCast (Inst (Suc (NextId s)) (PointerTy (IntegerTy 8)))
                   (PointerTy FuncTy)]) @
           [BranchInst (length (Blocks s))]\<rparr>] @
         [\<lparr>bbname = bbname (Blocks s ! bb) @ ''_call'',
           body = [(case asConstantInt v of
                      Some t \<Rightarrow> CallInst (NextId s) (Function t) [RegSetArg]
                    | None \<Rightarrow> CallInst (Suc (Suc (Suc (NextId s))))
                               (Inst (Suc (Suc (NextId s))) (PointerTy FuncTy)) [RegSetArg]),
                   BranchInst (Suc (length (Blocks s)))]\<rparr>,
          \<lparr>bbname = takeWhile (\<lambda>c. c \<noteq> CHR ''_'' \<and> c \<noteq> CHR ''c'') (bbname (Blocks s ! bb))
                     @ ''_c'' @ (case CurrentInst s of None \<Rightarrow> [] | Some I \<Rightarrow> utohexstr (Address I)),
           body = [BranchInst (ExitBB s)]\<rparr>],
       CallBBs := CallBBs s @ [length (Blocks s)],
       TheBB := Some (Suc (length (Blocks s))),
       Builder := Some (Suc (length (Blocks s))),
       Vals := rest,
       NextId := (case asConstantInt v of Some t \<Rightarrow> Suc (NextId s)
                  | None \<Rightarrow> Suc (Suc (Suc (Suc (NextId s))))),
       DRSCalls := DRS_SwitchToBasicBlock (Suc (length (Blocks s))) # DRS_FinalizeBasicBlock # DRSCalls s\<rparr>)"
  using assms
  by (cases "asConstantInt v")
     (simp_all add: seq_defs thn_rules tail_rules appendInst_def nth_append list_update_append)

section \<open>The exit blocks\<close>















section \<open>The demonstration target\<close>

lemma hooks_preserve_demoTarget: "hooks_preserve I demoTarget"
  by (simp add: hooks_preserve_def demoTarget_def preserves_def ret_def)


section \<open>The basic block map\<close>

text \<open>
  C3. \<^verbatim>\<open>getOrCreateBasicBlock\<close> always returns: it gives a block that the map then holds
  for the address, and a second call for the same address returns the same block and
  changes nothing. When the address was not in the map, the block is a new one, named
  \<open>bb_\<close> followed by the hexadecimal address, whose body is a call of the trap
  intrinsic followed by \<open>unreachable\<close>; when it was, the state is unchanged.
\<close>

theorem getOrCreateBasicBlock_idempotent:
  "\<exists>BB s1. getOrCreateBasicBlock a s = Inr (BB, s1)
     \<and> BBByAddr s1 a = Some BB
     \<and> getOrCreateBasicBlock a s1 = Inr (BB, s1)
     \<and> (BBByAddr s a = None \<longrightarrow>
          BB = length (Blocks s)
        \<and> Blocks s1 = Blocks s @
            [\<lparr>bbname = ''bb_'' @ utohexstr a,
              body = [CallInst (NextId s) (IntrinsicDecl Intrinsic_trap []) [], UnreachableInst]\<rparr>]
        \<and> BBByAddr s1 = (BBByAddr s)(a \<mapsto> BB))
     \<and> (BBByAddr s a \<noteq> None \<longrightarrow> s1 = s)"
  by (cases "BBByAddr s a") (simp_all add: getOrCreateBasicBlock_eq)

theorem getOrCreateBasicBlock_idempotent_witness:
  "\<exists>BB s1. getOrCreateBasicBlock 4096 demoState = Inr (BB, s1)
     \<and> BBByAddr s1 4096 = Some BB
     \<and> getOrCreateBasicBlock 4096 s1 = Inr (BB, s1)
     \<and> BB = 2
     \<and> Blocks s1 ! 2 =
            \<lparr>bbname = ''bb_'' @ utohexstr 4096,
              body = [CallInst 0 (IntrinsicDecl Intrinsic_trap []) [], UnreachableInst]\<rparr>"
  using getOrCreateBasicBlock_idempotent [of 4096 demoState]
  by (auto simp: demoState_def init_def)

section \<open>Binary operations\<close>

text \<open>
  C4. \<^verbatim>\<open>translateBinOp\<close> on a value stack holding at least two operands pops the two
  and pushes the one result of the binary operation it emits. For a shift whose
  right-hand operand has another type than the left-hand one (in particular a narrower
  integer type) it first emits the zero extension of the right-hand operand to the type
  of the left-hand one, and the shift takes the extended value.
\<close>

theorem translateBinOp_pops_two_pushes_one:
  assumes "Vals s = V1 # V2 # rest"
  shows "translateBinOp Opc s =
     (if isShift Opc \<and> getType V2 \<noteq> getType V1
      then Inr ((),
        (appendInst (Builder s)
           (BinaryOperator (Suc (NextId s)) Opc V1 (Inst (NextId s) (getType V1)))
           (appendInst (Builder s) (CastInst (NextId s) ZExt V2 (getType V1)) s))
        \<lparr>NextId := Suc (Suc (NextId s)),
         Vals := Inst (Suc (NextId s)) (getType V1) # rest\<rparr>)
      else Inr ((),
        (appendInst (Builder s) (BinaryOperator (NextId s) Opc V1 V2) s)
        \<lparr>NextId := Suc (NextId s), Vals := Inst (NextId s) (getType V1) # rest\<rparr>))
     \<and> (isShift Opc \<and> getType V1 = IntegerTy n \<and> getType V2 = IntegerTy m \<and> m < n \<longrightarrow>
          (\<exists>s'. translateBinOp Opc s = Inr ((), s')
             \<and> Blocks s' = Blocks
                  (appendInst (Builder s)
                     (BinaryOperator (Suc (NextId s)) Opc V1 (Inst (NextId s) (IntegerTy n)))
                     (appendInst (Builder s) (CastInst (NextId s) ZExt V2 (IntegerTy n)) s))
             \<and> Vals s' = Inst (Suc (NextId s)) (IntegerTy n) # rest))"
  using assms
  by (simp add: seq_defs thn_rules tail_rules appendInst_fields appendInst_upd)

theorem translateBinOp_witness:
  "translateBinOp Shl
     (demoState\<lparr>Vals := [ConstantInt (IntegerTy 64) 1, ConstantInt (IntegerTy 8) 3]\<rparr>) =
   Inr ((), demoState
     \<lparr>Blocks := [\<lparr>bbname = ''bb_1000'', body =
          [CastInst 0 ZExt (ConstantInt (IntegerTy 8) 3) (IntegerTy 64),
           BinaryOperator 1 Shl (ConstantInt (IntegerTy 64) 1) (Inst 0 (IntegerTy 64))]\<rparr>,
          \<lparr>bbname = ''exit_fn_1000'', body = [ReturnInst]\<rparr>],
      NextId := 2, Vals := [Inst 1 (IntegerTy 64)]\<rparr>)"
  using translateBinOp_pops_two_pushes_one
    [of "demoState\<lparr>Vals := [ConstantInt (IntegerTy 64) 1, ConstantInt (IntegerTy 8) 3]\<rparr>"
        "ConstantInt (IntegerTy 64) 1" "ConstantInt (IntegerTy 8) 3" "[]" Shl 64 8]
  by (simp add: demoState_def init_def appendInst_def)

section \<open>Wide multiplication\<close>

text \<open>
  C5. For \<^verbatim>\<open>SMUL_LOHI\<close> (with sign extension) and \<^verbatim>\<open>UMUL_LOHI\<close> (with zero
  extension) the translator reads a second value type for the high half, extends both
  popped factors to the integer type of \<open>LoBits + HiBits\<close> bits, multiplies them there,
  and pushes first the truncation of the product to the low type, then the truncation to
  the high type of the product shifted right logically by \<open>LoBits\<close>.
\<close>

theorem translateMulLoHi_spec:
  assumes op: "semaOpcode E Opc = ISD_SMUL_LOHI \<and> Ext = SExt
             \<or> semaOpcode E Opc = ISD_UMUL_LOHI \<and> Ext = ZExt"
    and tape: "Suc (Idx s) < length (SemanticsArray E)"
    and lo: "simpleValueType E (SemanticsArray E ! Idx s) = SimpleVT (IntegerTy LoBits)"
    and hi: "simpleValueType E (SemanticsArray E ! Suc (Idx s)) = SimpleVT (IntegerTy HiBits)"
    and vals: "Vals s = a # b # rest"
  shows "translateOpcode E T Opc s =
     Inr (True,
       (appendInst (Builder s)
          (CastInst (NextId s + 5) Trunc (Inst (NextId s + 4) (IntegerTy (LoBits + HiBits)))
             (IntegerTy HiBits))
       (appendInst (Builder s)
          (BinaryOperator (NextId s + 4) LShr (Inst (NextId s + 2) (IntegerTy (LoBits + HiBits)))
             (ConstantInt (IntegerTy (LoBits + HiBits)) (of_nat LoBits)))
       (appendInst (Builder s)
          (CastInst (NextId s + 3) Trunc (Inst (NextId s + 2) (IntegerTy (LoBits + HiBits)))
             (IntegerTy LoBits))
       (appendInst (Builder s)
          (BinaryOperator (NextId s + 2) Mul (Inst (NextId s) (IntegerTy (LoBits + HiBits)))
             (Inst (NextId s + 1) (IntegerTy (LoBits + HiBits))))
       (appendInst (Builder s)
          (CastInst (NextId s + 1) Ext b (IntegerTy (LoBits + HiBits)))
       (appendInst (Builder s)
          (CastInst (NextId s) Ext a (IntegerTy (LoBits + HiBits))) s))))))
       \<lparr>Idx := Idx s + 2, ResEVT := SimpleVT (IntegerTy LoBits), NextId := NextId s + 6,
        Vals := Inst (NextId s + 5) (IntegerTy HiBits) # Inst (NextId s + 3) (IntegerTy LoBits) # rest\<rparr>)"
  using assms
  by (auto simp: translateOpcode_eq seq_defs thn_rules tail_rules appendInst_fields appendInst_upd
      eval_nat_numeral)

theorem translateMulLoHi_witness:
  "translateOpcode (demoEnv False False) demoTarget 6
     (demoState\<lparr>Idx := 29, Vals := [Inst 7 (IntegerTy 64), Inst 8 (IntegerTy 64)], NextId := 9\<rparr>) =
   Inr (True, demoState
     \<lparr>Blocks := [\<lparr>bbname = ''bb_1000'', body =
          [CastInst 9 SExt (Inst 7 (IntegerTy 64)) (IntegerTy 128),
           CastInst 10 SExt (Inst 8 (IntegerTy 64)) (IntegerTy 128),
           BinaryOperator 11 Mul (Inst 9 (IntegerTy 128)) (Inst 10 (IntegerTy 128)),
           CastInst 12 Trunc (Inst 11 (IntegerTy 128)) (IntegerTy 64),
           BinaryOperator 13 LShr (Inst 11 (IntegerTy 128)) (ConstantInt (IntegerTy 128) 64),
           CastInst 14 Trunc (Inst 13 (IntegerTy 128)) (IntegerTy 64)]\<rparr>,
          \<lparr>bbname = ''exit_fn_1000'', body = [ReturnInst]\<rparr>],
      Idx := 31, ResEVT := SimpleVT (IntegerTy 64), NextId := 15,
      Vals := [Inst 14 (IntegerTy 64), Inst 12 (IntegerTy 64)]\<rparr>)"
  using translateMulLoHi_spec
    [of "demoEnv False False" 6 SExt
        "demoState\<lparr>Idx := 29, Vals := [Inst 7 (IntegerTy 64), Inst 8 (IntegerTy 64)], NextId := 9\<rparr>"
        64 64 "Inst 7 (IntegerTy 64)" "Inst 8 (IntegerTy 64)" "[]" demoTarget]
  by (simp add: demo_rules appendInst_def)

section \<open>The result of translating an instruction\<close>

text \<open>
  C10. Whenever \<^verbatim>\<open>translateInst\<close> returns, with success or failure, the value stack
  is empty and the current instruction is null.
\<close>

theorem translateInst_clears:
  "translateInst fuel E T I s = Inr (ok, s') \<Longrightarrow> Vals s' = [] \<and> CurrentInst s' = None"
  by (auto simp: translateInst_def thn_Inr_iff upd_def ret_def)

lemma demo_complex_pattern:
  "translateInst 3 (demoEnv False False) demoTarget (demoInst 3)
     (demoState\<lparr>Vals := [RegSetArg]\<rparr>) =
     Inr (False, demoState\<lparr>Blocks := [\<lparr>bbname = ''bb_1000'', body =
          [GetReg 0 0, BinaryOperator 1 Add (Inst 0 (IntegerTy 64)) (ConstantInt (IntegerTy 64) 2),
           SetReg 0 (Inst 1 (IntegerTy 64))]\<rparr>,
          \<lparr>bbname = ''exit_fn_1000'', body = [ReturnInst]\<rparr>],
       NextId := 2, Idx := 15, ResEVT := SimpleVT (IntegerTy 64), Opcode := 4,
       DRSCalls := [DRS_SwitchToInst (demoInst 3)]\<rparr>)"
  by (simp add: eval_rules demo_rules)

theorem translateInst_clears_witness:
  "\<exists>s'. translateInst 3 (demoEnv False False) demoTarget (demoInst 3)
          (demoState\<lparr>Vals := [RegSetArg]\<rparr>) = Inr (False, s')
       \<and> Vals s' = [] \<and> CurrentInst s' = None"
  using translateInst_clears [OF demo_complex_pattern] demo_complex_pattern by simp



section \<open>Complex patterns\<close>

text \<open>
  C9. The core's \<^verbatim>\<open>translateComplexPattern\<close> returns null for every pattern, so
  for a target that does not override it \<^verbatim>\<open>translateOpcode\<close> returns false on a
  \<^verbatim>\<open>COMPLEX_PATTERN\<close> opcode, and the loop over the opcodes of the instruction stops
  there with false.
\<close>

theorem complexPattern_fails:
  assumes "overrideComplexPattern T = None"
    and "semaOpcode E (SemanticsArray E ! Idx s) = COMPLEX_PATTERN"
    and "Idx s + 2 < length (SemanticsArray E)"
  shows "translateComplexPattern Pattern s = Inr (None, s)
     \<and> translateOpcode E T (SemanticsArray E ! Idx s) (s\<lparr>Idx := Suc (Idx s)\<rparr>) =
         Inr (False, s\<lparr>Idx := Idx s + 3,
                       ResEVT := simpleValueType E (SemanticsArray E ! Suc (Idx s))\<rparr>)
     \<and> translateOpcodes (Suc n) E T s =
         Inr (False, s\<lparr>Idx := Idx s + 3, Opcode := SemanticsArray E ! Idx s,
                       ResEVT := simpleValueType E (SemanticsArray E ! Suc (Idx s))\<rparr>)"
  using assms
  by (simp add: translateOpcodes_eq translateOpcode_eq seq_defs thn_rules tail_rules
      eval_nat_numeral)

theorem complexPattern_fails_witness:
  "translateOpcodes 3 (demoEnv False False) demoTarget (demoState\<lparr>Idx := 12\<rparr>) =
     Inr (False, demoState\<lparr>Idx := 15, Opcode := 4, ResEVT := SimpleVT (IntegerTy 64)\<rparr>)"
  using complexPattern_fails [of demoTarget "demoEnv False False" "demoState\<lparr>Idx := 12\<rparr>" 0 2]
  by (simp add: demo_rules eval_nat_numeral)

text \<open>
  C1. When the target hook declines an instruction whose opcode has semantics in the
  tables, \<^verbatim>\<open>tryTranslateInst\<close> first emits, at the insertion point, the read of the
  program counter register, the addition of the size of the instruction and the write
  back, and only then runs the semantic opcodes, on the state that holds these three
  instructions; whatever the opcodes emit, the block keeps them as the first ones after
  what it held. The hooks of the target are assumed to only add to the function.
\<close>

theorem PC_advanced_first:
  assumes hooks: "\<forall>s0. hooks_preserve (grows s0) T"
    and decl: "translateTargetInst T s = Inr (False, s1)"
    and cur: "CurrentInst s1 = Some In"
    and tab: "InstOpcode In < length (OpcodeToSemaIdx E)"
             "OpcodeToSemaIdx E ! InstOpcode In \<noteq> - 1"
    and bld: "Builder s1 = Some bb" "bb < length (Blocks s1)"
  shows "tryTranslateInst fuel E T s =
           translateOpcodes fuel E T
             (s1\<lparr>Blocks := (Blocks s1)[bb := (Blocks s1 ! bb)\<lparr>body := body (Blocks s1 ! bb) @
                    [GetReg (NextId s1) (getProgramCounter E),
                     BinaryOperator (Suc (NextId s1)) Add
                       (Inst (NextId s1) (getRegType E (getProgramCounter E)))
                       (ConstantInt (getRegType E (getProgramCounter E)) (Size In)),
                     SetReg (getProgramCounter E)
                       (Inst (Suc (NextId s1)) (getRegType E (getProgramCounter E)))]\<rparr>],
                 Idx := unat (OpcodeToSemaIdx E ! InstOpcode In),
                 NextId := Suc (Suc (NextId s1))\<rparr>)
       \<and> (\<forall>ok s'. tryTranslateInst fuel E T s = Inr (ok, s') \<longrightarrow>
            prefix (body (Blocks s1 ! bb) @
                    [GetReg (NextId s1) (getProgramCounter E),
                     BinaryOperator (Suc (NextId s1)) Add
                       (Inst (NextId s1) (getRegType E (getProgramCounter E)))
                       (ConstantInt (getRegType E (getProgramCounter E)) (Size In)),
                     SetReg (getProgramCounter E)
                       (Inst (Suc (NextId s1)) (getRegType E (getProgramCounter E)))])
                   (body (Blocks s' ! bb)))"
proof -
  let ?sP = "s1\<lparr>Blocks := (Blocks s1)[bb := (Blocks s1 ! bb)\<lparr>body := body (Blocks s1 ! bb) @
                    [GetReg (NextId s1) (getProgramCounter E),
                     BinaryOperator (Suc (NextId s1)) Add
                       (Inst (NextId s1) (getRegType E (getProgramCounter E)))
                       (ConstantInt (getRegType E (getProgramCounter E)) (Size In)),
                     SetReg (getProgramCounter E)
                       (Inst (Suc (NextId s1)) (getRegType E (getProgramCounter E)))]\<rparr>],
                 Idx := unat (OpcodeToSemaIdx E ! InstOpcode In),
                 NextId := Suc (Suc (NextId s1))\<rparr>"
  have run: "tryTranslateInst fuel E T s = translateOpcodes fuel E T ?sP"
    using cur tab bld
    apply (simp add: tryTranslateInst_def [THEN fun_cong]
        thn_eval [where m = "translateTargetInst T", OF decl]
        seq_defs thn_rules thn_getCurrentInst appendInst_def)
    apply (rule arg_cong [where f = "translateOpcodes fuel E T"])
    apply simp
    done
  have len: "bb < length (Blocks ?sP)"
    using bld by simp
  have pre: "prefix (body (Blocks ?sP ! bb)) (body (Blocks s' ! bb))"
    if r: "tryTranslateInst fuel E T s = Inr (ok, s')" for ok s'
  proof -
    from hooks have h: "hooks_preserve (grows ?sP) T" ..
    from r have "translateOpcodes fuel E T ?sP = Inr (ok, s')"
      by (simp only: run)
    then have "grows ?sP s'"
      by (rule preservesD [OF stable_translateOpcodes [OF step_stable_grows h] grows_refl])
    then have "\<forall>b < length (Blocks ?sP). prefix (body (Blocks ?sP ! b)) (body (Blocks s' ! b))"
      unfolding grows_def ..
    with len show ?thesis by blast
  qed
  have bodyP: "body (Blocks ?sP ! bb) = body (Blocks s1 ! bb) @
                    [GetReg (NextId s1) (getProgramCounter E),
                     BinaryOperator (Suc (NextId s1)) Add
                       (Inst (NextId s1) (getRegType E (getProgramCounter E)))
                       (ConstantInt (getRegType E (getProgramCounter E)) (Size In)),
                     SetReg (getProgramCounter E)
                       (Inst (Suc (NextId s1)) (getRegType E (getProgramCounter E)))]"
    using bld by simp
  show ?thesis
    using run pre unfolding bodyP by blast
qed

theorem PC_advanced_first_witness:
  "\<exists>ok s'. tryTranslateInst 3 (demoEnv False False) demoTarget
             (demoState\<lparr>CurrentInst := Some (demoInst 1)\<rparr>) = Inr (ok, s')
     \<and> prefix [GetReg 0 0,
                BinaryOperator 1 Add (Inst 0 (IntegerTy 64)) (ConstantInt (IntegerTy 64) 2),
                SetReg 0 (Inst 1 (IntegerTy 64))]
               (body (Blocks s' ! 0))"
proof -
  let ?s = "demoState\<lparr>CurrentInst := Some (demoInst 1)\<rparr>"
  have "\<exists>ok s'. tryTranslateInst 3 (demoEnv False False) demoTarget ?s = Inr (ok, s')"
    by (auto simp: eval_rules demo_rules)
  then obtain ok s' where
    r: "tryTranslateInst 3 (demoEnv False False) demoTarget ?s = Inr (ok, s')"
    by blast
  have hooks: "\<forall>s0. hooks_preserve (grows s0) demoTarget"
    by (simp add: hooks_preserve_demoTarget)
  have decl: "translateTargetInst demoTarget ?s = Inr (False, ?s)"
    by (simp add: demoTarget_fields ret_def)
  have "prefix (body (Blocks ?s ! 0) @
          [GetReg (NextId ?s) (getProgramCounter (demoEnv False False)),
           BinaryOperator (Suc (NextId ?s)) Add
             (Inst (NextId ?s) (getRegType (demoEnv False False) (getProgramCounter (demoEnv False False))))
             (ConstantInt (getRegType (demoEnv False False) (getProgramCounter (demoEnv False False)))
                (Size (demoInst 1))),
           SetReg (getProgramCounter (demoEnv False False))
             (Inst (Suc (NextId ?s))
                (getRegType (demoEnv False False) (getProgramCounter (demoEnv False False))))])
         (body (Blocks s' ! 0))"
    using PC_advanced_first [where T = demoTarget and s = ?s and ?s1.0 = ?s and In = "demoInst 1"
        and E = "demoEnv False False" and bb = 0 and fuel = 3, OF hooks decl] r
    by (simp add: demo_rules)
  with r show ?thesis
    by (auto simp: demo_rules)
qed

text \<open>
  C6. The claim that every \<^verbatim>\<open>BRIND\<close> calls the intrinsic \<^verbatim>\<open>dc_translate_at\<close> fails for a
  target that is a constant: a jump to the constant address \<open>0x2000\<close> is translated
  into a call of the function at that address, and no call of the intrinsic is emitted.
\<close>

theorem BRIND_always_translate_at_counterexample:
  "returned (translateInst 3 (demoEnv False False) demoTarget (demoInst 4) demoState) = Some True
   \<and> \<not> callsTranslateAt
         (blocksOf (translateInst 3 (demoEnv False False) demoTarget (demoInst 4) demoState))
   \<and> map body (blocksOf (translateInst 3 (demoEnv False False) demoTarget (demoInst 4) demoState)) =
       [[GetReg 0 0,
         BinaryOperator 1 Add (Inst 0 (IntegerTy 64)) (ConstantInt (IntegerTy 64) 2),
         SetReg 0 (Inst 1 (IntegerTy 64)),
         SetReg 0 (ConstantInt (IntegerTy 64) 8192),
         BranchInst 2],
        [ReturnInst],
        [CallInst 2 (Function 8192) [RegSetArg], BranchInst 3],
        [BranchInst 1]]"
  by (simp add: eval_rules demo_rules returned_def blocksOf_def callsTranslateAt_def)

text \<open>
  C6, as the code has it. \<^verbatim>\<open>BRIND\<close> with the target \<open>v\<close> writes \<open>v\<close> to the program
  counter register; when \<open>v\<close> is not a constant integer it casts \<open>v\<close> to a pointer, calls
  \<^verbatim>\<open>dc_translate_at\<close> on it and casts the result to a function pointer; it then branches
  to a new call block, recorded in the list of call blocks, that calls this function
  pointer, or for a constant \<open>v\<close> the function at the address \<open>v\<close>, and branches to a
  new block, which branches to the exit block. A call of \<^verbatim>\<open>dc_translate_at\<close> is added
  exactly when \<open>v\<close> is not a constant.
\<close>

theorem translateBRIND_spec:
  assumes op: "semaOpcode E Opc = ISD_BRIND"
    and tape: "Idx s < length (SemanticsArray E)"
    and vals: "Vals s = v # rest"
    and bb: "TheBB s = Some bb" "Builder s = Some bb" "bb < length (Blocks s)"
  shows "\<exists>s'. translateOpcode E T Opc s = Inr (True, s')
     \<and> Blocks s' =
         (Blocks s)[bb := (Blocks s ! bb)\<lparr>body := body (Blocks s ! bb) @
           SetReg (getProgramCounter E) v #
           (case asConstantInt v of
              Some t \<Rightarrow> []
            | None \<Rightarrow>
                [CastInst (NextId s) IntToPtr v (PointerTy (IntegerTy 8)),
                 CallInst (Suc (NextId s)) (IntrinsicDecl Intrinsic_dc_translate_at [])
                   [Inst (NextId s) (PointerTy (IntegerTy 8))],
                 CastInst (Suc (Suc (NextId s))) BitCast (Inst (Suc (NextId s)) (PointerTy (IntegerTy 8)))
                   (PointerTy FuncTy)]) @
           [BranchInst (length (Blocks s))]\<rparr>] @
         [\<lparr>bbname = bbname (Blocks s ! bb) @ ''_call'',
           body = [(case asConstantInt v of
                      Some t \<Rightarrow> CallInst (NextId s) (Function t) [RegSetArg]
                    | None \<Rightarrow> CallInst (Suc (Suc (Suc (NextId s))))
                               (Inst (Suc (Suc (NextId s))) (PointerTy FuncTy)) [RegSetArg]),
                   BranchInst (Suc (length (Blocks s)))]\<rparr>,
          \<lparr>bbname = takeWhile (\<lambda>c. c \<noteq> CHR ''_'' \<and> c \<noteq> CHR ''c'') (bbname (Blocks s ! bb))
                     @ ''_c'' @ (case CurrentInst s of None \<Rightarrow> [] | Some I \<Rightarrow> utohexstr (Address I)),
           body = [BranchInst (ExitBB s)]\<rparr>]
     \<and> CallBBs s' = CallBBs s @ [length (Blocks s)]
     \<and> TheBB s' = Some (Suc (length (Blocks s)))
     \<and> Builder s' = Some (Suc (length (Blocks s)))
     \<and> Vals s' = rest
     \<and> (callsTranslateAt (Blocks s') \<longleftrightarrow> callsTranslateAt (Blocks s) \<or> asConstantInt v = None)"
proof -
  let ?s0 = "s\<lparr>Idx := Suc (Idx s), ResEVT := simpleValueType E (SemanticsArray E ! Idx s)\<rparr>"
  note e = translateBRIND_eq [of ?s0 v rest bb E]
  have step: "translateOpcode E T Opc s = thn (translateBRIND E) (\<lambda>_. ret True) ?s0"
    using op tape by (simp add: translateOpcode_eq seq_defs thn_rules)
  show ?thesis
    unfolding step
    using vals bb e
    by (cases "asConstantInt v")
       (simp_all add: thn_def ret_def callsTranslateAt_append callsTranslateAt_append_body,
        simp_all add: callsTranslateAt_def)
qed

theorem translateBRIND_spec_witness:
  "\<exists>s'. translateOpcode (demoEnv False False) demoTarget 3
           (demoState\<lparr>Idx := 10, Vals := [Inst 2 (IntegerTy 64)], NextId := 3\<rparr>) = Inr (True, s')
     \<and> map body (Blocks s') =
        [[SetReg 0 (Inst 2 (IntegerTy 64)),
          CastInst 3 IntToPtr (Inst 2 (IntegerTy 64)) (PointerTy (IntegerTy 8)),
          CallInst 4 (IntrinsicDecl Intrinsic_dc_translate_at []) [Inst 3 (PointerTy (IntegerTy 8))],
          CastInst 5 BitCast (Inst 4 (PointerTy (IntegerTy 8))) (PointerTy FuncTy),
          BranchInst 2],
         [ReturnInst],
         [CallInst 6 (Inst 5 (PointerTy FuncTy)) [RegSetArg], BranchInst 3],
         [BranchInst 1]]
     \<and> CallBBs s' = [2]"
  using translateBRIND_spec [of "demoEnv False False" 3
      "demoState\<lparr>Idx := 10, Vals := [Inst 2 (IntegerTy 64)], NextId := 3\<rparr>"
      "Inst 2 (IntegerTy 64)" "[]" 0 demoTarget]
  by (auto simp: demo_rules)




text \<open>
  C8. In every state of the translation each recorded call block holds exactly a call
  followed by a branch. The destructor then returns, having put
  \<^verbatim>\<open>saveAllLocalRegs\<close> before the call and \<^verbatim>\<open>restoreLocalRegs\<close> after it in each recorded
  block, left the other blocks as they were, and notified the register set description
  of the end of the function with the exit block. The hooks of the target are assumed to
  keep the recorded call blocks as they are.
\<close>

theorem call_blocks_wrapped:
  assumes hooks: "hooks_preserve callInv T" and r: "reachable E T s"
  shows "(\<forall>b \<in> set (CallBBs s).
           \<exists>i f args d. body (Blocks s ! b) = [CallInst i f args, BranchInst d])
     \<and> (\<exists>s'. DCFunction_dtor s = Inr ((), s')
          \<and> (\<forall>b \<in> set (CallBBs s).
                body (Blocks s' ! b) = [SaveAllLocalRegs, body (Blocks s ! b) ! 0,
                                        RestoreLocalRegs, body (Blocks s ! b) ! 1])
          \<and> (\<forall>b < length (Blocks s). b \<notin> set (CallBBs s) \<longrightarrow> Blocks s' ! b = Blocks s ! b)
          \<and> DRSCalls s' = DRS_FinalizeFunction (ExitBB s) # DRSCalls s)"
proof -
  have inv: "callInv s"
    by (rule reachable_callInv [OF hooks r])
  then have d: "distinct (CallBBs s)"
    and c: "\<forall>b \<in> set (CallBBs s). b < length (Blocks s) \<and> isCallBlock (body (Blocks s ! b))"
    by (auto simp: callInv_def)
  from wrapCallBBs_ok [OF d c] obtain bs' where
    w: "wrapCallBBs (CallBBs s) s = Inr ((), s\<lparr>Blocks := bs'\<rparr>)"
    and n: "\<forall>b < length (Blocks s).
          bs' ! b = (if b \<in> set (CallBBs s)
                     then (Blocks s ! b)\<lparr>body := [SaveAllLocalRegs, body (Blocks s ! b) ! 0,
                                                RestoreLocalRegs, body (Blocks s ! b) ! 1]\<rparr>
                     else Blocks s ! b)"
    by blast
  have dt: "DCFunction_dtor s =
      Inr ((), s\<lparr>Blocks := bs', DRSCalls := DRS_FinalizeFunction (ExitBB s) # DRSCalls s\<rparr>)"
    by (simp add: DCFunction_dtor_def [THEN fun_cong] thn_gets
        thn_eval [where m = "wrapCallBBs (CallBBs s)", OF w] notifyDRS_def upd_def)
  from c have "\<forall>b \<in> set (CallBBs s).
           \<exists>i f args d. body (Blocks s ! b) = [CallInst i f args, BranchInst d]"
    by (blast elim: isCallBlockE)
  moreover from c n have "\<forall>b \<in> set (CallBBs s).
      body (bs' ! b) = [SaveAllLocalRegs, body (Blocks s ! b) ! 0,
                        RestoreLocalRegs, body (Blocks s ! b) ! 1]"
    by simp
  moreover from n have "\<forall>b < length (Blocks s). b \<notin> set (CallBBs s) \<longrightarrow> bs' ! b = Blocks s ! b"
    by simp
  ultimately show ?thesis
    unfolding dt by simp
qed

theorem call_blocks_wrapped_witness:
  "\<exists>ok s s'. demoIndirect = Inr (ok, s) \<and> CallBBs s = [3]
     \<and> body (Blocks s ! 3) = [CallInst 7 (Inst 6 (PointerTy FuncTy)) [RegSetArg], BranchInst 4]
     \<and> DCFunction_dtor s = Inr ((), s')
     \<and> body (Blocks s' ! 3) =
           [SaveAllLocalRegs, CallInst 7 (Inst 6 (PointerTy FuncTy)) [RegSetArg],
            RestoreLocalRegs, BranchInst 4]
     \<and> DRSCalls s' = DRS_FinalizeFunction 1 # DRSCalls s"
proof -
  have "\<exists>ok s. demoIndirect = Inr (ok, s) \<and> CallBBs s = [3] \<and> ExitBB s = 1
     \<and> body (Blocks s ! 3) = [CallInst 7 (Inst 6 (PointerTy FuncTy)) [RegSetArg], BranchInst 4]"
    by (auto simp: demoIndirect_def eval_rules demo_rules init_def)
  then obtain ok s where r: "demoIndirect = Inr (ok, s)" and cb: "CallBBs s = [3]"
    and ex: "ExitBB s = 1"
    and b: "body (Blocks s ! 3) = [CallInst 7 (Inst 6 (PointerTy FuncTy)) [RegSetArg], BranchInst 4]"
    by blast
  from r obtain s0 s1 where
    c: "DCFunction (demoEnv False False)
          \<lparr>FnStartAddr = 4096, FnBlocks = [\<lparr>StartAddr = 4096, EndAddr = 4098\<rparr>]\<rparr> init = Inr ((), s0)"
    and sw: "SwitchToMCBasicBlock (demoEnv False False) \<lparr>StartAddr = 4096, EndAddr = 4098\<rparr> s0 = Inr ((), s1)"
    and t: "translateInst 3 (demoEnv False False) demoTarget (demoInst 1) s1 = Inr (ok, s)"
    unfolding demoIndirect_def thn_Inr_iff by auto
  have re: "reachable (demoEnv False False) demoTarget s"
    by (rule reachable.translated [OF reachable.switched [OF reachable.constructed [OF c] sw] t])
  from call_blocks_wrapped [OF hooks_preserve_demoTarget re] cb b ex r
  show ?thesis
    by auto
qed

end
